theory Spec2Isabelle
  imports Main "HOL-Library.Multiset" "HOL-Library.Sublist"
begin

section \<open>ghdownloader: data model\<close>

text \<open>
  The Go package \<open>ghdownloader\<close> (the revision with per-tag directories and two-step
  asset resolution) is embedded function by function. Library calls the package makes
  (\<open>os\<close>, \<open>net/http\<close>, \<open>io\<close>, \<open>path/filepath\<close>, the go-github client) are
  parameters, collected in the record \<open>env\<close>; their failures are values.
\<close>

subsection \<open>go-github values\<close>

text \<open>
  \<open>github.ReleaseAsset\<close> and \<open>github.RepositoryRelease\<close> have pointer fields; the
  accessors \<open>GetName\<close>, \<open>GetURL\<close>, \<open>GetTagName\<close>, \<open>GetDraft\<close> and
  \<open>GetPrerelease\<close> return the zero value for a nil field.
\<close>

record asset =
  a_Name :: "string option"
  a_URL :: "string option"

record release =
  r_TagName :: "string option"
  r_Draft :: "bool option"
  r_Prerelease :: "bool option"
  r_Assets :: "asset list"

definition GetName :: "asset \<Rightarrow> string" where
  "GetName a = (case a_Name a of None \<Rightarrow> [] | Some n \<Rightarrow> n)"

definition GetURL :: "asset \<Rightarrow> string" where
  "GetURL a = (case a_URL a of None \<Rightarrow> [] | Some u \<Rightarrow> u)"

definition GetTagName :: "release \<Rightarrow> string" where
  "GetTagName r = (case r_TagName r of None \<Rightarrow> [] | Some t \<Rightarrow> t)"

definition GetDraft :: "release \<Rightarrow> bool" where
  "GetDraft r = (case r_Draft r of None \<Rightarrow> False | Some b \<Rightarrow> b)"

definition GetPrerelease :: "release \<Rightarrow> bool" where
  "GetPrerelease r = (case r_Prerelease r of None \<Rightarrow> False | Some b \<Rightarrow> b)"

subsection \<open>Errors\<close>

text \<open>
  One constructor per \<open>fmt.Errorf\<close> of the package; an error of a library call is
  carried as its message. \<open>Error\<close> is Go's \<open>err.Error()\<close>: the formatted message.
\<close>

datatype error =
    DestDirFailed string
  | InvalidFormat string error
  | ExpectedOwnerRepo
  | FailedDownload string string error
  | ErrorsOccurred "string list"
  | FetchFailed string
  | DraftOrPrerelease
  | NoAssets
  | VersionDirFailed string string
  | NoApiURL string
  | CreateFailed string string
  | RequestFailed string
  | RedirectFailed string
  | UnexpectedStatus string
  | NoLocation string
  | RedirectRequestFailed string
  | DownloadFailed string
  | BadStatus string
  | WriteFailed string string

fun strings_Join :: "string list \<Rightarrow> string \<Rightarrow> string" where
  "strings_Join [] sep = []"
| "strings_Join [x] sep = x"
| "strings_Join (x # y # ys) sep = x @ sep @ strings_Join (y # ys) sep"

definition quoted :: "string \<Rightarrow> string" where
  "quoted s = [CHR 0x27] @ s @ [CHR 0x27]"

fun Error :: "error \<Rightarrow> string" where
  "Error (DestDirFailed e) = ''failed to create destination directory: '' @ e"
| "Error (InvalidFormat u e) = ''invalid user/repo format '' @ quoted u @ '': '' @ Error e"
| "Error ExpectedOwnerRepo = ''expected format '' @ quoted ''owner/repo''"
| "Error (FailedDownload owner repo e) =
     ''failed to download '' @ owner @ ''/'' @ repo @ '': '' @ Error e"
| "Error (ErrorsOccurred errs) = ''errors occurred:'' @ [CHR 0x0A] @ strings_Join errs [CHR 0x0A]"
| "Error (FetchFailed e) = ''error fetching latest release: '' @ e"
| "Error DraftOrPrerelease = ''latest release is draft or pre-release''"
| "Error NoAssets = ''no assets found in the latest release''"
| "Error (VersionDirFailed dir e) =
     ''failed to create version directory '' @ quoted dir @ '': '' @ e"
| "Error (NoApiURL n) = ''asset '' @ quoted n @ '' does not have an API URL''"
| "Error (CreateFailed p e) = ''failed to create file '' @ quoted p @ '': '' @ e"
| "Error (RequestFailed e) = ''failed to create HTTP request: '' @ e"
| "Error (RedirectFailed e) = ''failed to get asset redirect URL: '' @ e"
| "Error (UnexpectedStatus st) = ''unexpected status code (expected 302 Found): got '' @ st"
| "Error (NoLocation n) = ''no redirect location found for asset '' @ quoted n"
| "Error (RedirectRequestFailed e) =
     ''failed to create HTTP request for redirected URL: '' @ e"
| "Error (DownloadFailed e) = ''failed to download asset from redirect URL: '' @ e"
| "Error (BadStatus st) = ''bad status downloading asset from redirect URL: '' @ st"
| "Error (WriteFailed p e) = ''failed to write to file '' @ quoted p @ '': '' @ e"

subsection \<open>HTTP, the file system and the downloader\<close>

record request =
  req_Method :: string
  req_URL :: string
  req_Header :: "(string \<times> string) list"
  req_FollowRedirects :: bool

record response =
  resp_StatusCode :: int
  resp_Status :: string
  resp_Header :: "string \<rightharpoonup> string list"
  resp_Body :: string

text \<open>\<open>http.Header.Get\<close>: the first value stored under the key, or the empty string.\<close>

definition Header_Get :: "(string \<rightharpoonup> string list) \<Rightarrow> string \<Rightarrow> string" where
  "Header_Get h k = (case h k of None \<Rightarrow> [] | Some [] \<Rightarrow> [] | Some (v # _) \<Rightarrow> v)"

datatype node = File string | Dir

text \<open>
  What the package prints with \<open>fmt.Printf\<close>, one constructor per format string:
  the skip notice of the filter, the warning of a failed asset, the notice of a file
  that is already there, and the notice of a finished download.
\<close>

datatype notice =
    Skipping string string
  | Warning string string string error
  | AlreadyExists string
  | Downloaded string string

text \<open>
  The mutable state: the file system, the \<open>binPaths\<close> field of the \<open>Downloader\<close>,
  the requests sent so far and the lines printed so far.
\<close>

record world =
  nodes :: "string \<rightharpoonup> node"
  binPaths :: "string list"
  requests :: "request list"
  stdout :: "notice list"

text \<open>The fields of \<open>Downloader\<close> that a run only reads.\<close>

record downloader =
  destDir :: string
  token :: string
  matchFilter :: string

text \<open>
  The library calls. An \<open>option\<close> result is the error of a call that returns only an
  error (\<open>None\<close> is success); a sum has the error on the left. \<open>ioCopy p body\<close> is
  \<open>io.Copy\<close> into the file at \<open>p\<close>: \<open>Some (n, e)\<close> is the error \<open>e\<close> after
  \<open>n\<close> bytes were written. Within a run a call has one outcome for the same
  arguments; what a call changes in the file system is written in the functions below.
\<close>

record env =
  GetLatestRelease :: "string \<Rightarrow> string \<Rightarrow> string + release"
  MkdirAll :: "string \<Rightarrow> string option"
  Create :: "string \<Rightarrow> string option"
  NewRequest :: "string \<Rightarrow> string option"
  Do :: "request \<Rightarrow> string + response"
  ioCopy :: "string \<Rightarrow> string \<Rightarrow> (nat \<times> string) option"
  Join :: "string \<Rightarrow> string \<Rightarrow> string"

text \<open>\<open>os.Stat(p)\<close> returns no error: something is at \<open>p\<close>.\<close>

definition Stat_ok :: "world \<Rightarrow> string \<Rightarrow> bool" where
  "Stat_ok w p = (nodes w p \<noteq> None)"

text \<open>A successful \<open>os.MkdirAll(p)\<close> leaves what is at \<open>p\<close>, or makes the directory.\<close>

definition made_dir :: "world \<Rightarrow> string \<Rightarrow> world" where
  "made_dir w p = (case nodes w p of None \<Rightarrow> w\<lparr>nodes := (nodes w)(p \<mapsto> Dir)\<rparr> | Some _ \<Rightarrow> w)"

text \<open>The file at \<open>p\<close> holds \<open>c\<close>: after \<open>os.Create\<close> (empty) and after \<open>io.Copy\<close>.\<close>

definition put_file :: "world \<Rightarrow> string \<Rightarrow> string \<Rightarrow> world" where
  "put_file w p c = w\<lparr>nodes := (nodes w)(p \<mapsto> File c)\<rparr>"

section \<open>The functions of the package\<close>

subsection \<open>parseUserRepo\<close>

text \<open>\<open>strings.Split(s, sep)\<close> for a separator of one byte, as the package calls it.\<close>

fun strings_Split :: "string \<Rightarrow> char \<Rightarrow> string list" where
  "strings_Split [] sep = [[]]"
| "strings_Split (c # cs) sep =
     (if c = sep then [] # strings_Split cs sep
      else (case strings_Split cs sep of
              [] \<Rightarrow> [[c]]
            | p # ps \<Rightarrow> (c # p) # ps))"

definition parseUserRepo :: "string \<Rightarrow> error + (string \<times> string)" where
  "parseUserRepo userRepo =
     (let parts = strings_Split userRepo (CHR ''/'') in
      if length parts \<noteq> 2 then Inl ExpectedOwnerRepo
      else Inr (parts ! 0, parts ! 1))"

subsection \<open>downloadAsset\<close>

definition first_request :: "downloader \<Rightarrow> string \<Rightarrow> request" where
  "first_request d apiURL =
     \<lparr>req_Method = ''GET'', req_URL = apiURL,
      req_Header = (if token d \<noteq> [] then [(''Authorization'', ''token '' @ token d)] else [])
                    @ [(''Accept'', ''application/octet-stream'')],
      req_FollowRedirects = False\<rparr>"

definition second_request :: "string \<Rightarrow> request" where
  "second_request redirectURL =
     \<lparr>req_Method = ''GET'', req_URL = redirectURL,
      req_Header = [(''Accept'', ''application/octet-stream'')],
      req_FollowRedirects = True\<rparr>"

definition sent :: "world \<Rightarrow> request \<Rightarrow> world" where
  "sent w r = w\<lparr>requests := requests w @ [r]\<rparr>"

definition recorded :: "world \<Rightarrow> notice \<Rightarrow> string \<Rightarrow> world" where
  "recorded w n p = w\<lparr>stdout := stdout w @ [n], binPaths := binPaths w @ [p]\<rparr>"

definition downloadAsset ::
  "env \<Rightarrow> downloader \<Rightarrow> asset \<Rightarrow> string \<Rightarrow> bool \<Rightarrow> world \<Rightarrow> error option \<times> world" where
  "downloadAsset E d a versionDir forceDownload w =
     (let apiURL = GetURL a in
      if apiURL = [] then (Some (NoApiURL (GetName a)), w)
      else
        let fileName = GetName a;
            filePath = Join E versionDir fileName in
        if \<not> forceDownload \<and> Stat_ok w filePath
        then (None, recorded w (AlreadyExists filePath) filePath)
        else
          (case Create E filePath of
             Some e \<Rightarrow> (Some (CreateFailed filePath e), w)
           | None \<Rightarrow>
               let w1 = put_file w filePath [] in
               (case NewRequest E apiURL of
                  Some e \<Rightarrow> (Some (RequestFailed e), w1)
                | None \<Rightarrow>
                    let req = first_request d apiURL;
                        w2 = sent w1 req in
                    (case Do E req of
                       Inl e \<Rightarrow> (Some (RedirectFailed e), w2)
                     | Inr resp \<Rightarrow>
                         if resp_StatusCode resp \<noteq> 302
                         then (Some (UnexpectedStatus (resp_Status resp)), w2)
                         else
                           let redirectURL = Header_Get (resp_Header resp) ''Location'' in
                           if redirectURL = [] then (Some (NoLocation (GetName a)), w2)
                           else
                             (case NewRequest E redirectURL of
                                Some e \<Rightarrow> (Some (RedirectRequestFailed e), w2)
                              | None \<Rightarrow>
                                  let secondReq = second_request redirectURL;
                                      w3 = sent w2 secondReq in
                                  (case Do E secondReq of
                                     Inl e \<Rightarrow> (Some (DownloadFailed e), w3)
                                   | Inr secondResp \<Rightarrow>
                                       if resp_StatusCode secondResp \<noteq> 200
                                       then (Some (BadStatus (resp_Status secondResp)), w3)
                                       else
                                         (case ioCopy E filePath (resp_Body secondResp) of
                                            Some (n, e) \<Rightarrow>
                                              (Some (WriteFailed filePath e),
                                               put_file w3 filePath (take n (resp_Body secondResp)))
                                          | None \<Rightarrow>
                                              (None,
                                               recorded
                                                 (put_file w3 filePath (resp_Body secondResp))
                                                 (Downloaded (GetName a) filePath)
                                                 filePath))))))))"

subsection \<open>downloadLatestRelease\<close>

text \<open>\<open>strings.Contains(s, sub)\<close>.\<close>

fun strings_Contains :: "string \<Rightarrow> string \<Rightarrow> bool" where
  "strings_Contains [] sub = (sub = [])"
| "strings_Contains (c # cs) sub = (prefix sub (c # cs) \<or> strings_Contains cs sub)"

text \<open>
  The first part of \<open>downloadLatestRelease\<close>, up to the creation of the version
  directory: the error it returns, or the directory, the \<open>forceDownload\<close> flag and the
  assets that the loop then works on.
\<close>

definition resolveRelease ::
  "env \<Rightarrow> downloader \<Rightarrow> string \<Rightarrow> string \<Rightarrow> world
     \<Rightarrow> error + (string \<times> bool \<times> asset list \<times> world)" where
  "resolveRelease E d owner repo w =
     (case GetLatestRelease E owner repo of
        Inl e \<Rightarrow> Inl (FetchFailed e)
      | Inr rel \<Rightarrow>
          if GetDraft rel \<or> GetPrerelease rel then Inl DraftOrPrerelease
          else if length (r_Assets rel) = 0 then Inl NoAssets
          else
            let tag0 = GetTagName rel;
                forceDownload = (tag0 = []);
                tag = (if tag0 = [] then ''latest'' else tag0);
                dirName = repo @ ''-'' @ tag;
                versionDir = Join E (destDir d) dirName in
            (case MkdirAll E versionDir of
               Some e \<Rightarrow> Inl (VersionDirFailed versionDir e)
             | None \<Rightarrow> Inr (versionDir, forceDownload, r_Assets rel, made_dir w versionDir)))"

text \<open>The body of the loop over the assets, and the loop.\<close>

definition assetStep ::
  "env \<Rightarrow> downloader \<Rightarrow> string \<Rightarrow> string \<Rightarrow> string \<Rightarrow> bool \<Rightarrow> asset \<Rightarrow> world \<Rightarrow> world" where
  "assetStep E d owner repo versionDir forceDownload a w =
     (if matchFilter d \<noteq> [] \<and> \<not> strings_Contains (GetName a) (matchFilter d)
      then w\<lparr>stdout := stdout w @ [Skipping (GetName a) (matchFilter d)]\<rparr>
      else
        (case downloadAsset E d a versionDir forceDownload w of
           (Some err, w') \<Rightarrow> w'\<lparr>stdout := stdout w' @ [Warning (GetName a) owner repo err]\<rparr>
         | (None, w') \<Rightarrow> w'))"

fun downloadAssets ::
  "env \<Rightarrow> downloader \<Rightarrow> string \<Rightarrow> string \<Rightarrow> string \<Rightarrow> bool \<Rightarrow> asset list \<Rightarrow> world \<Rightarrow> world" where
  "downloadAssets E d owner repo versionDir forceDownload [] w = w"
| "downloadAssets E d owner repo versionDir forceDownload (a # as) w =
     downloadAssets E d owner repo versionDir forceDownload as
       (assetStep E d owner repo versionDir forceDownload a w)"

definition downloadLatestRelease ::
  "env \<Rightarrow> downloader \<Rightarrow> string \<Rightarrow> string \<Rightarrow> world \<Rightarrow> error option \<times> world" where
  "downloadLatestRelease E d owner repo w =
     (case resolveRelease E d owner repo w of
        Inl e \<Rightarrow> (Some e, w)
      | Inr (versionDir, forceDownload, assets, w') \<Rightarrow>
          (None, downloadAssets E d owner repo versionDir forceDownload assets w'))"

subsection \<open>DownloadLatestReleases\<close>

text \<open>
  A goroutine of \<open>DownloadLatestReleases\<close> runs \<open>downloadLatestRelease\<close> and sends
  its error, wrapped, to \<open>errChan\<close>. The goroutines share the file system, the
  network, the standard output and \<open>binPaths\<close>, and only the append to \<open>binPaths\<close>
  is under \<open>d.mu\<close>: they interleave between any two calls that touch what they share.
  So a goroutine moves in steps of one such call each: \<open>GetLatestRelease\<close>,
  \<open>os.MkdirAll\<close>, and in \<open>downloadAsset\<close> \<open>os.Stat\<close>, \<open>os.Create\<close>, each
  \<open>Do\<close>, each write of \<open>io.Copy\<close>, each \<open>fmt.Printf\<close>, the append, and the send
  to the channel. What a goroutine computes between two calls from its own variables
  goes with the call before or after.
\<close>

text \<open>
  Where a goroutine stands in its pass of the loop for an asset:
  \<^item> \<open>Top\<close>: before the test of the filter;
  \<^item> \<open>Found\<close>: \<open>os.Stat\<close> returned no error, before the notice;
  \<^item> \<open>ToCreate\<close>: before \<open>os.Create\<close>;
  \<^item> \<open>ToRedirect\<close>: the file is created and the first request built, before \<open>client.Do\<close>;
  \<^item> \<open>ToFetch loc\<close>: the second request, to \<open>loc\<close>, is built, before \<open>Do\<close>;
  \<^item> \<open>Copying body n\<close>: in \<open>io.Copy\<close>, with \<open>n\<close> bytes of \<open>body\<close> written;
  \<^item> \<open>Copied\<close>: \<open>io.Copy\<close> returned no error, before the notice;
  \<^item> \<open>ToAppend\<close>: the notice is printed, before the append to \<open>binPaths\<close>;
  \<^item> \<open>Failed err\<close>: \<open>downloadAsset\<close> returned \<open>err\<close>, before the warning.
\<close>

datatype pc =
    Top
  | Found
  | ToCreate
  | ToRedirect
  | ToFetch string
  | Copying string nat
  | Copied
  | ToAppend
  | Failed error

text \<open>
  \<open>io.Copy\<close> writes the body in pieces, through the goroutine's own file descriptor,
  each piece where the last one ended; it stops at the end of the body, or where the
  error of \<open>ioCopy\<close> strikes. A write past the end of the file (another goroutine has
  truncated it meanwhile) fills the gap with zero bytes.
\<close>

definition copy_limit :: "env \<Rightarrow> string \<Rightarrow> string \<Rightarrow> nat" where
  "copy_limit E p body =
     (case ioCopy E p body of None \<Rightarrow> length body | Some (n, e) \<Rightarrow> min n (length body))"

definition write_at :: "string \<Rightarrow> nat \<Rightarrow> string \<Rightarrow> string" where
  "write_at c off piece =
     take off (c @ replicate (off - length c) (CHR 0x00)) @ piece @ drop (off + length piece) c"

definition file_at :: "world \<Rightarrow> string \<Rightarrow> string" where
  "file_at w p = (case nodes w p of Some (File c) \<Rightarrow> c | _ \<Rightarrow> [])"

text \<open>
  One step of a pass of the loop, for the asset \<open>a\<close>: the state after it, and where
  the goroutine then stands in the pass (\<open>None\<close>: the pass is over). A write of
  \<open>io.Copy\<close> takes at most \<open>Suc n\<close> bytes.
\<close>

fun asset_step ::
  "env \<Rightarrow> downloader \<Rightarrow> nat \<Rightarrow> string \<Rightarrow> string \<Rightarrow> string \<Rightarrow> bool \<Rightarrow> asset \<Rightarrow> pc \<Rightarrow> world
     \<Rightarrow> world \<times> pc option" where
  "asset_step E d n owner repo versionDir forceDownload a Top w =
     (if matchFilter d \<noteq> [] \<and> \<not> strings_Contains (GetName a) (matchFilter d)
      then (w\<lparr>stdout := stdout w @ [Skipping (GetName a) (matchFilter d)]\<rparr>, None)
      else if GetURL a = [] then (w, Some (Failed (NoApiURL (GetName a))))
      else if \<not> forceDownload \<and> Stat_ok w (Join E versionDir (GetName a)) then (w, Some Found)
      else (w, Some ToCreate))"
| "asset_step E d n owner repo versionDir forceDownload a Found w =
     (w\<lparr>stdout := stdout w @ [AlreadyExists (Join E versionDir (GetName a))]\<rparr>, Some ToAppend)"
| "asset_step E d n owner repo versionDir forceDownload a ToCreate w =
     (let filePath = Join E versionDir (GetName a) in
      case Create E filePath of
        Some e \<Rightarrow> (w, Some (Failed (CreateFailed filePath e)))
      | None \<Rightarrow>
          (case NewRequest E (GetURL a) of
             Some e \<Rightarrow> (put_file w filePath [], Some (Failed (RequestFailed e)))
           | None \<Rightarrow> (put_file w filePath [], Some ToRedirect)))"
| "asset_step E d n owner repo versionDir forceDownload a ToRedirect w =
     (let req = first_request d (GetURL a);
          w2 = sent w req in
      case Do E req of
        Inl e \<Rightarrow> (w2, Some (Failed (RedirectFailed e)))
      | Inr resp \<Rightarrow>
          if resp_StatusCode resp \<noteq> 302
          then (w2, Some (Failed (UnexpectedStatus (resp_Status resp))))
          else
            let redirectURL = Header_Get (resp_Header resp) ''Location'' in
            if redirectURL = [] then (w2, Some (Failed (NoLocation (GetName a))))
            else
              (case NewRequest E redirectURL of
                 Some e \<Rightarrow> (w2, Some (Failed (RedirectRequestFailed e)))
               | None \<Rightarrow> (w2, Some (ToFetch redirectURL))))"
| "asset_step E d n owner repo versionDir forceDownload a (ToFetch redirectURL) w =
     (let secondReq = second_request redirectURL;
          w3 = sent w secondReq in
      case Do E secondReq of
        Inl e \<Rightarrow> (w3, Some (Failed (DownloadFailed e)))
      | Inr secondResp \<Rightarrow>
          if resp_StatusCode secondResp \<noteq> 200
          then (w3, Some (Failed (BadStatus (resp_Status secondResp))))
          else (w3, Some (Copying (resp_Body secondResp) 0)))"
| "asset_step E d n owner repo versionDir forceDownload a (Copying body off) w =
     (let filePath = Join E versionDir (GetName a) in
      if off < copy_limit E filePath body
      then
        let piece = take (min (Suc n) (copy_limit E filePath body - off)) (drop off body) in
        (put_file w filePath (write_at (file_at w filePath) off piece),
         Some (Copying body (off + length piece)))
      else
        (case ioCopy E filePath body of
           Some (k, e) \<Rightarrow> (w, Some (Failed (WriteFailed filePath e)))
         | None \<Rightarrow> (w, Some Copied)))"
| "asset_step E d n owner repo versionDir forceDownload a Copied w =
     (w\<lparr>stdout := stdout w @ [Downloaded (GetName a) (Join E versionDir (GetName a))]\<rparr>,
      Some ToAppend)"
| "asset_step E d n owner repo versionDir forceDownload a ToAppend w =
     (w\<lparr>binPaths := binPaths w @ [Join E versionDir (GetName a)]\<rparr>, None)"
| "asset_step E d n owner repo versionDir forceDownload a (Failed err) w =
     (w\<lparr>stdout := stdout w @ [Warning (GetName a) owner repo err]\<rparr>, None)"

text \<open>
  The part of \<open>downloadLatestRelease\<close> before \<open>os.MkdirAll\<close>: the error it returns,
  or the version directory, the \<open>forceDownload\<close> flag and the assets.
\<close>

definition acceptRelease ::
  "env \<Rightarrow> downloader \<Rightarrow> string \<Rightarrow> string \<Rightarrow> error + (string \<times> bool \<times> asset list)" where
  "acceptRelease E d owner repo =
     (case GetLatestRelease E owner repo of
        Inl e \<Rightarrow> Inl (FetchFailed e)
      | Inr rel \<Rightarrow>
          if GetDraft rel \<or> GetPrerelease rel then Inl DraftOrPrerelease
          else if length (r_Assets rel) = 0 then Inl NoAssets
          else
            let tag0 = GetTagName rel;
                forceDownload = (tag0 = []);
                tag = (if tag0 = [] then ''latest'' else tag0);
                dirName = repo @ ''-'' @ tag;
                versionDir = Join E (destDir d) dirName in
            Inr (versionDir, forceDownload, r_Assets rel))"

text \<open>
  A goroutine has not started (\<open>Spawned\<close>), has its release and is before
  \<open>os.MkdirAll\<close> (\<open>Resolved\<close>), is in the loop with some assets left (\<open>InLoop\<close>),
  is before the send of the error of \<open>downloadLatestRelease\<close> (\<open>Failing\<close>), or has
  returned. The channel is the list of the errors sent, in the order they were sent.
\<close>

datatype task =
    Spawned string string
  | Resolved string string string bool "asset list"
  | InLoop string string string bool "asset list" pc
  | Failing string string error
  | Finished

fun task_step ::
  "env \<Rightarrow> downloader \<Rightarrow> nat \<Rightarrow> task \<Rightarrow> world \<times> error list \<Rightarrow> (world \<times> error list) \<times> task" where
  "task_step E d n (Spawned owner repo) (w, ch) =
     (case acceptRelease E d owner repo of
        Inl e \<Rightarrow> ((w, ch), Failing owner repo e)
      | Inr (versionDir, forceDownload, assets) \<Rightarrow>
          ((w, ch), Resolved owner repo versionDir forceDownload assets))"
| "task_step E d n (Resolved owner repo versionDir forceDownload assets) (w, ch) =
     (case MkdirAll E versionDir of
        Some e \<Rightarrow> ((w, ch), Failing owner repo (VersionDirFailed versionDir e))
      | None \<Rightarrow> ((made_dir w versionDir, ch), InLoop owner repo versionDir forceDownload assets Top))"
| "task_step E d n (InLoop owner repo versionDir forceDownload [] p) (w, ch) = ((w, ch), Finished)"
| "task_step E d n (InLoop owner repo versionDir forceDownload (a # as) p) (w, ch) =
     (case asset_step E d n owner repo versionDir forceDownload a p w of
        (w', Some p') \<Rightarrow> ((w', ch), InLoop owner repo versionDir forceDownload (a # as) p')
      | (w', None) \<Rightarrow> ((w', ch), InLoop owner repo versionDir forceDownload as Top))"
| "task_step E d n (Failing owner repo e) (w, ch) =
     ((w, ch @ [FailedDownload owner repo e]), Finished)"
| "task_step E d n Finished (w, ch) = ((w, ch), Finished)"

text \<open>
  A schedule names, step by step, the goroutine that moves next and the size of the
  piece it may write (a goroutine that has returned, or a number that is no
  goroutine's, moves nothing).
\<close>

fun run_sched ::
  "env \<Rightarrow> downloader \<Rightarrow> (nat \<times> nat) list \<Rightarrow> (world \<times> error list) \<times> task list
     \<Rightarrow> (world \<times> error list) \<times> task list" where
  "run_sched E d [] c = c"
| "run_sched E d ((i, n) # sched) (c, ts) =
     (if i < length ts
      then (case task_step E d n (ts ! i) c of
              (c', t') \<Rightarrow> run_sched E d sched (c', ts[i := t']))
      else run_sched E d sched (c, ts))"

text \<open>
  A goroutine run alone from where it is until it returns (\<open>io.Copy\<close> then writes what
  is left of the body in one piece). That it returns is the termination of
  \<open>finish_task\<close>, proved below from the order \<open>task_order\<close> in which every step
  goes down.
\<close>

definition piece_left :: "task \<Rightarrow> nat" where
  "piece_left t =
     (case t of InLoop owner repo versionDir forceDownload as (Copying body off) \<Rightarrow> length body
      | _ \<Rightarrow> 0)"

fun phase :: "task \<Rightarrow> nat" where
  "phase (Spawned owner repo) = 3"
| "phase (Resolved owner repo versionDir forceDownload assets) = 2"
| "phase (InLoop owner repo versionDir forceDownload as p) = 1"
| "phase (Failing owner repo e) = 1"
| "phase Finished = 0"

fun assets_left :: "task \<Rightarrow> nat" where
  "assets_left (InLoop owner repo versionDir forceDownload as p) = Suc (length as)"
| "assets_left t = 0"

fun rank :: "pc \<Rightarrow> nat" where
  "rank Top = 7"
| "rank ToCreate = 6"
| "rank ToRedirect = 5"
| "rank (ToFetch loc) = 4"
| "rank (Copying body off) = 3"
| "rank Copied = 2"
| "rank Found = 2"
| "rank ToAppend = 1"
| "rank (Failed err) = 1"

fun pc_rank :: "task \<Rightarrow> nat" where
  "pc_rank (InLoop owner repo versionDir forceDownload as p) = rank p"
| "pc_rank t = 0"

fun bytes_left :: "env \<Rightarrow> task \<Rightarrow> nat" where
  "bytes_left E (InLoop owner repo versionDir forceDownload (a # as) (Copying body off)) =
     copy_limit E (Join E versionDir (GetName a)) body - off"
| "bytes_left E t = 0"

definition task_order ::
  "((env \<times> downloader \<times> task \<times> world \<times> error list) \<times>
    (env \<times> downloader \<times> task \<times> world \<times> error list)) set" where
  "task_order =
     measures [\<lambda>(E, d, t, c). phase t, \<lambda>(E, d, t, c). assets_left t,
               \<lambda>(E, d, t, c). pc_rank t, \<lambda>(E, d, t, c). bytes_left E t]"

function finish_task ::
  "env \<Rightarrow> downloader \<Rightarrow> task \<Rightarrow> world \<times> error list \<Rightarrow> world \<times> error list" where
  "finish_task E d t c =
     (if t = Finished then c
      else (case task_step E d (piece_left t) t c of
              (c', t') \<Rightarrow> finish_task E d t' c'))"
  by pat_completeness auto

text \<open>
  \<open>d.wg.Wait()\<close> returns when every goroutine has returned: the goroutines that the
  schedule left unfinished run to their end, one after the other.
\<close>

fun Wait :: "env \<Rightarrow> downloader \<Rightarrow> task list \<Rightarrow> world \<times> error list \<Rightarrow> world \<times> error list" where
  "Wait E d [] c = c"
| "Wait E d (t # ts) c = Wait E d ts (finish_task E d t c)"

text \<open>
  The loop over \<open>userRepos\<close>: the goroutines spawned, and the error of the first
  identifier that does not parse, where the loop returns.
\<close>

fun spawn_loop :: "string list \<Rightarrow> task list \<Rightarrow> task list \<times> error option" where
  "spawn_loop [] ts = (ts, None)"
| "spawn_loop (userRepo # rest) ts =
     (case parseUserRepo userRepo of
        Inl err \<Rightarrow> (ts, Some (InvalidFormat userRepo err))
      | Inr (owner, repo) \<Rightarrow> spawn_loop rest (ts @ [Spawned owner repo]))"

text \<open>
  The result is the pair the Go function returns (a nil slice is the empty list) and
  the state it leaves. On the early return the goroutines spawned so far are not waited
  for: they have moved as far as the schedule says.
\<close>

definition DownloadLatestReleases ::
  "env \<Rightarrow> downloader \<Rightarrow> (nat \<times> nat) list \<Rightarrow> string list \<Rightarrow> world
     \<Rightarrow> (string list \<times> error option) \<times> world" where
  "DownloadLatestReleases E d sched userRepos w =
     (case MkdirAll E (destDir d) of
        Some e \<Rightarrow> (([], Some (DestDirFailed e)), w)
      | None \<Rightarrow>
          (case spawn_loop userRepos [] of
             (ts, Some err) \<Rightarrow>
               (case run_sched E d sched ((made_dir w (destDir d), []), ts) of
                  ((w', ch), ts') \<Rightarrow> (([], Some err), w'))
           | (ts, None) \<Rightarrow>
               (case run_sched E d sched ((made_dir w (destDir d), []), ts) of
                  (c, ts') \<Rightarrow>
                    (case Wait E d ts' c of
                       (w', ch) \<Rightarrow>
                         let errs = map Error ch in
                         if length errs > 0
                         then ((binPaths w', Some (ErrorsOccurred errs)), w')
                         else ((binPaths w', None), w')))))"

section \<open>What a goroutine is still to do\<close>

text \<open>
  The part of \<open>downloadLatestRelease\<close> before the loop reads the state nowhere: its
  error, or the directory, the flag and the assets, are the same in every state.
\<close>

definition plan_of ::
  "env \<Rightarrow> downloader \<Rightarrow> string \<Rightarrow> string \<Rightarrow> error + (string \<times> bool \<times> asset list)" where
  "plan_of E d owner repo =
     (case resolveRelease E d owner repo \<lparr>nodes = Map.empty, binPaths = [], requests = [], stdout = []\<rparr> of
        Inl e \<Rightarrow> Inl e
      | Inr (versionDir, forceDownload, assets, _) \<Rightarrow> Inr (versionDir, forceDownload, assets))"

text \<open>The error a goroutine is still to send (none, or one).\<close>

fun task_errs :: "env \<Rightarrow> downloader \<Rightarrow> task \<Rightarrow> error list" where
  "task_errs E d (Spawned owner repo) =
     (case plan_of E d owner repo of
        Inl e \<Rightarrow> [FailedDownload owner repo e]
      | Inr _ \<Rightarrow> [])"
| "task_errs E d (Resolved owner repo versionDir forceDownload assets) =
     (case MkdirAll E versionDir of
        Some e \<Rightarrow> [FailedDownload owner repo (VersionDirFailed versionDir e)]
      | None \<Rightarrow> [])"
| "task_errs E d (InLoop owner repo versionDir forceDownload as p) = []"
| "task_errs E d (Failing owner repo e) = [FailedDownload owner repo e]"
| "task_errs E d Finished = []"

text \<open>The lines a goroutine is still to print: one for each asset it has not printed for.\<close>

fun task_lines :: "env \<Rightarrow> downloader \<Rightarrow> task \<Rightarrow> nat" where
  "task_lines E d (Spawned owner repo) =
     (case plan_of E d owner repo of
        Inl e \<Rightarrow> 0
      | Inr (versionDir, forceDownload, assets) \<Rightarrow> length assets)"
| "task_lines E d (Resolved owner repo versionDir forceDownload assets) =
     (case MkdirAll E versionDir of Some e \<Rightarrow> 0 | None \<Rightarrow> length assets)"
| "task_lines E d (InLoop owner repo versionDir forceDownload [] p) = 0"
| "task_lines E d (InLoop owner repo versionDir forceDownload (a # as) p) =
     (if p = ToAppend then 0 else 1) + length as"
| "task_lines E d (Failing owner repo e) = 0"
| "task_lines E d Finished = 0"

text \<open>
  The filter lets the asset through; and every library call of a download of the asset
  into the directory succeeds (seen on a forced download, which reads no state).
\<close>

definition selected :: "downloader \<Rightarrow> asset \<Rightarrow> bool" where
  "selected d a = (matchFilter d = [] \<or> strings_Contains (GetName a) (matchFilter d))"

definition fetchable :: "env \<Rightarrow> downloader \<Rightarrow> string \<times> asset \<Rightarrow> bool" where
  "fetchable E d va =
     (fst (downloadAsset E d (snd va) (fst va) True
        \<lparr>nodes = Map.empty, binPaths = [], requests = [], stdout = []\<rparr>) = None)"

text \<open>
  From where it stands in the pass for the asset, the goroutine is sure to append the
  path of the asset: the calls it is still to make all succeed.
\<close>

definition sure_fetch :: "env \<Rightarrow> string \<Rightarrow> string \<Rightarrow> bool" where
  "sure_fetch E filePath loc =
     (case Do E (second_request loc) of
        Inl e \<Rightarrow> False
      | Inr secondResp \<Rightarrow>
          resp_StatusCode secondResp = 200 \<and> ioCopy E filePath (resp_Body secondResp) = None)"

definition sure_redirect :: "env \<Rightarrow> downloader \<Rightarrow> string \<Rightarrow> asset \<Rightarrow> bool" where
  "sure_redirect E d versionDir a =
     (case Do E (first_request d (GetURL a)) of
        Inl e \<Rightarrow> False
      | Inr resp \<Rightarrow>
          resp_StatusCode resp = 302 \<and> Header_Get (resp_Header resp) ''Location'' \<noteq> [] \<and>
          NewRequest E (Header_Get (resp_Header resp) ''Location'') = None \<and>
          sure_fetch E (Join E versionDir (GetName a)) (Header_Get (resp_Header resp) ''Location''))"

fun sure :: "env \<Rightarrow> downloader \<Rightarrow> string \<Rightarrow> asset \<Rightarrow> pc \<Rightarrow> bool" where
  "sure E d versionDir a Top = (selected d a \<and> fetchable E d (versionDir, a))"
| "sure E d versionDir a ToCreate = fetchable E d (versionDir, a)"
| "sure E d versionDir a ToRedirect = sure_redirect E d versionDir a"
| "sure E d versionDir a (ToFetch loc) = sure_fetch E (Join E versionDir (GetName a)) loc"
| "sure E d versionDir a (Copying body off) =
     (ioCopy E (Join E versionDir (GetName a)) body = None)"
| "sure E d versionDir a Copied = True"
| "sure E d versionDir a Found = True"
| "sure E d versionDir a ToAppend = True"
| "sure E d versionDir a (Failed err) = False"

text \<open>The paths a goroutine is sure to append to \<open>binPaths\<close> yet.\<close>

definition sure_paths :: "env \<Rightarrow> downloader \<Rightarrow> string \<Rightarrow> asset list \<Rightarrow> string list" where
  "sure_paths E d versionDir as =
     map (\<lambda>a. Join E versionDir (GetName a))
       (filter (\<lambda>a. selected d a \<and> fetchable E d (versionDir, a)) as)"

fun task_paths :: "env \<Rightarrow> downloader \<Rightarrow> task \<Rightarrow> string list" where
  "task_paths E d (Spawned owner repo) =
     (case plan_of E d owner repo of
        Inl e \<Rightarrow> []
      | Inr (versionDir, forceDownload, assets) \<Rightarrow> sure_paths E d versionDir assets)"
| "task_paths E d (Resolved owner repo versionDir forceDownload assets) =
     (case MkdirAll E versionDir of Some e \<Rightarrow> [] | None \<Rightarrow> sure_paths E d versionDir assets)"
| "task_paths E d (InLoop owner repo versionDir forceDownload [] p) = []"
| "task_paths E d (InLoop owner repo versionDir forceDownload (a # as) p) =
     (if sure E d versionDir a p then [Join E versionDir (GetName a)] else [])
       @ sure_paths E d versionDir as"
| "task_paths E d (Failing owner repo e) = []"
| "task_paths E d Finished = []"

text \<open>The goroutines of a list of parsed identifiers.\<close>

definition spawned :: "(string \<times> string) list \<Rightarrow> task list" where
  "spawned repos = map (\<lambda>(owner, repo). Spawned owner repo) repos"

text \<open>
  What a goroutine that runs alone leaves of a pass of the loop, from the places of the
  pass where the file is just created: the rest of \<open>downloadAsset\<close> and the warning
  of the loop. They serve to show that the steps make up \<open>downloadAsset\<close>.
\<close>

definition warned :: "world \<Rightarrow> string \<Rightarrow> string \<Rightarrow> asset \<Rightarrow> error \<Rightarrow> world" where
  "warned w owner repo a err = w\<lparr>stdout := stdout w @ [Warning (GetName a) owner repo err]\<rparr>"

definition rest_copy ::
  "env \<Rightarrow> string \<Rightarrow> string \<Rightarrow> asset \<Rightarrow> string \<Rightarrow> string \<Rightarrow> world \<Rightarrow> world" where
  "rest_copy E owner repo a filePath body w =
     (case ioCopy E filePath body of
        Some (k, e) \<Rightarrow> warned (put_file w filePath (take k body)) owner repo a (WriteFailed filePath e)
      | None \<Rightarrow> recorded (put_file w filePath body) (Downloaded (GetName a) filePath) filePath)"

definition rest_fetch ::
  "env \<Rightarrow> string \<Rightarrow> string \<Rightarrow> asset \<Rightarrow> string \<Rightarrow> string \<Rightarrow> world \<Rightarrow> world" where
  "rest_fetch E owner repo a filePath redirectURL w =
     (let secondReq = second_request redirectURL;
          w3 = sent w secondReq in
      case Do E secondReq of
        Inl e \<Rightarrow> warned w3 owner repo a (DownloadFailed e)
      | Inr secondResp \<Rightarrow>
          if resp_StatusCode secondResp \<noteq> 200
          then warned w3 owner repo a (BadStatus (resp_Status secondResp))
          else rest_copy E owner repo a filePath (resp_Body secondResp) w3)"

definition rest_redirect ::
  "env \<Rightarrow> downloader \<Rightarrow> string \<Rightarrow> string \<Rightarrow> asset \<Rightarrow> string \<Rightarrow> world \<Rightarrow> world" where
  "rest_redirect E d owner repo a filePath w =
     (let req = first_request d (GetURL a);
          w2 = sent w req in
      case Do E req of
        Inl e \<Rightarrow> warned w2 owner repo a (RedirectFailed e)
      | Inr resp \<Rightarrow>
          if resp_StatusCode resp \<noteq> 302
          then warned w2 owner repo a (UnexpectedStatus (resp_Status resp))
          else
            let redirectURL = Header_Get (resp_Header resp) ''Location'' in
            if redirectURL = [] then warned w2 owner repo a (NoLocation (GetName a))
            else
              (case NewRequest E redirectURL of
                 Some e \<Rightarrow> warned w2 owner repo a (RedirectRequestFailed e)
               | None \<Rightarrow> rest_fetch E owner repo a filePath redirectURL w2))"

definition rest_create ::
  "env \<Rightarrow> downloader \<Rightarrow> string \<Rightarrow> string \<Rightarrow> asset \<Rightarrow> string \<Rightarrow> world \<Rightarrow> world" where
  "rest_create E d owner repo a filePath w =
     (case Create E filePath of
        Some e \<Rightarrow> warned w owner repo a (CreateFailed filePath e)
      | None \<Rightarrow>
          (case NewRequest E (GetURL a) of
             Some e \<Rightarrow> warned (put_file w filePath []) owner repo a (RequestFailed e)
           | None \<Rightarrow> rest_redirect E d owner repo a filePath (put_file w filePath [])))"

section \<open>A small world to run the functions in\<close>

text \<open>
  One asset, served in two steps (a 302 with a \<open>Location\<close>, then a 200 with the
  body \<open>B\<close>); releases of three repositories (\<open>tool\<close>, tagged \<open>v1\<close>;
  \<open>next\<close>, untagged; \<open>draft\<close>, a draft) and no other; library calls that
  succeed, with \<open>filepath.Join\<close> on two clean relative names.
\<close>

definition ex_asset :: asset where
  "ex_asset = \<lparr>a_Name = Some ''tool.tar.gz'', a_URL = Some ''https://api.example/assets/1''\<rparr>"

definition ex_asset_no_url :: asset where
  "ex_asset_no_url = \<lparr>a_Name = Some ''tool.tar.gz'', a_URL = None\<rparr>"

definition ex_found :: response where
  "ex_found = \<lparr>resp_StatusCode = 302, resp_Status = ''302 Found'',
     resp_Header = [''Location'' \<mapsto> [''https://cdn.example/asset'']], resp_Body = []\<rparr>"

definition ex_ok :: response where
  "ex_ok = \<lparr>resp_StatusCode = 200, resp_Status = ''200 OK'',
     resp_Header = Map.empty, resp_Body = ''B''\<rparr>"

definition ex_unavailable :: response where
  "ex_unavailable = \<lparr>resp_StatusCode = 503, resp_Status = ''503 Service Unavailable'',
     resp_Header = Map.empty, resp_Body = []\<rparr>"

definition ex_release :: release where
  "ex_release = \<lparr>r_TagName = Some ''v1'', r_Draft = Some False, r_Prerelease = Some False,
     r_Assets = [ex_asset]\<rparr>"

definition ex_env :: env where
  "ex_env = \<lparr>
     GetLatestRelease = (\<lambda>owner repo.
        if repo = ''tool'' then Inr ex_release
        else if repo = ''next'' then Inr (ex_release\<lparr>r_TagName := None\<rparr>)
        else if repo = ''draft'' then Inr (ex_release\<lparr>r_Draft := Some True\<rparr>)
        else Inl ''404 Not Found''),
     MkdirAll = (\<lambda>p. None),
     Create = (\<lambda>p. None),
     NewRequest = (\<lambda>u. None),
     Do = (\<lambda>r.
        if req_URL r = ''https://api.example/assets/1'' then Inr ex_found
        else if req_URL r = ''https://cdn.example/asset'' then Inr ex_ok
        else Inl ''no such host''),
     ioCopy = (\<lambda>p body. None),
     Join = (\<lambda>dir name. dir @ ''/'' @ name)\<rparr>"

definition ex_env_down :: env where
  "ex_env_down = ex_env\<lparr>Do := (\<lambda>r. Inr ex_unavailable)\<rparr>"

definition ex_env_no_dir :: env where
  "ex_env_no_dir = ex_env\<lparr>MkdirAll := (\<lambda>p. if p = ''out'' then None else Some ''not a directory'')\<rparr>"

definition ex_downloader :: downloader where
  "ex_downloader = \<lparr>destDir = ''out'', token = ''t0'', matchFilter = []\<rparr>"

definition ex_world :: world where
  "ex_world = \<lparr>nodes = Map.empty, binPaths = [], requests = [], stdout = []\<rparr>"

definition ex_world_old :: world where
  "ex_world_old = ex_world\<lparr>nodes := [''out/tool-v1/tool.tar.gz'' \<mapsto> File ''old'']\<rparr>"

text \<open>A schedule for three goroutines; the goroutines it leaves unfinished run at the wait.\<close>

definition ex_sched :: "(nat \<times> nat) list" where
  "ex_sched = [(Suc (Suc 0), 0), (0, 0), (Suc 0, 0), (Suc (Suc 0), 0), (0, 0), (0, 0)]"

text \<open>
  Two schedules for two goroutines: three steps each (up to \<open>os.Stat\<close>), one after
  the other; and four steps of the first (up to \<open>os.Create\<close>), then five of the
  second.
\<close>

definition ex_sched_both :: "(nat \<times> nat) list" where
  "ex_sched_both = [(0, 0), (0, 0), (0, 0), (Suc 0, 0), (Suc 0, 0), (Suc 0, 0)]"

definition ex_sched_found :: "(nat \<times> nat) list" where
  "ex_sched_found = [(0, 0), (0, 0), (0, 0), (0, 0), (Suc 0, 0), (Suc 0, 0), (Suc 0, 0), (Suc 0, 0), (Suc 0, 0)]"

section \<open>Properties\<close>

subsection \<open>parseUserRepo\<close>

lemma strings_Split_not_Nil: "strings_Split s c \<noteq> []"
  by (induction s) (auto split: list.splits)

lemma strings_Split_single: "strings_Split s c = [b] \<longleftrightarrow> (s = b \<and> c \<notin> set b)"
proof (induction s arbitrary: b)
  case Nil
  then show ?case by auto
next
  case (Cons x xs)
  show ?case
  proof (cases "x = c")
    case True
    then show ?thesis by (auto simp: strings_Split_not_Nil)
  next
    case False
    then show ?thesis using Cons[of "tl b"]
      by (cases b) (auto split: list.splits simp: strings_Split_not_Nil)
  qed
qed

lemma strings_Split_pair:
  "strings_Split s c = [a, b] \<longleftrightarrow> (s = a @ c # b \<and> c \<notin> set a \<and> c \<notin> set b)"
proof (induction s arbitrary: a)
  case Nil
  then show ?case by auto
next
  case (Cons x xs)
  show ?case
  proof (cases "x = c")
    case True
    then show ?thesis
      by (cases a) (auto simp: strings_Split_single)
  next
    case False
    then show ?thesis using Cons[of "tl a"]
      by (cases a) (auto split: list.splits simp: strings_Split_not_Nil)
  qed
qed

lemma length_strings_Split: "length (strings_Split s c) = Suc (count_list s c)"
  by (induction s) (auto split: list.splits simp: strings_Split_not_Nil)

lemma length_2_iff: "length xs = 2 \<longleftrightarrow> (\<exists>a b. xs = [a, b])"
  by (cases xs; cases "tl xs"; cases "tl (tl xs)") auto

lemma parseUserRepo_Inr:
  "parseUserRepo s = Inr (owner, repo) \<longleftrightarrow>
     (s = owner @ ''/'' @ repo \<and> CHR ''/'' \<notin> set owner \<and> CHR ''/'' \<notin> set repo)"
proof (cases "\<exists>a b. strings_Split s (CHR ''/'') = [a, b]")
  case True
  then obtain a b where ab: "strings_Split s (CHR ''/'') = [a, b]" by blast
  then have p: "parseUserRepo s = Inr (a, b)"
    by (simp add: parseUserRepo_def)
  show ?thesis
  proof
    assume "parseUserRepo s = Inr (owner, repo)"
    with p have "a = owner" "b = repo" by simp_all
    with ab show "s = owner @ ''/'' @ repo \<and> CHR ''/'' \<notin> set owner \<and> CHR ''/'' \<notin> set repo"
      by (simp add: strings_Split_pair)
  next
    assume "s = owner @ ''/'' @ repo \<and> CHR ''/'' \<notin> set owner \<and> CHR ''/'' \<notin> set repo"
    then have "strings_Split s (CHR ''/'') = [owner, repo]"
      by (simp add: strings_Split_pair)
    with ab p show "parseUserRepo s = Inr (owner, repo)" by simp
  qed
next
  case False
  then have "length (strings_Split s (CHR ''/'')) \<noteq> 2"
    by (simp add: length_2_iff)
  then have "parseUserRepo s = Inl ExpectedOwnerRepo"
    by (simp add: parseUserRepo_def)
  moreover have "\<not> (s = owner @ ''/'' @ repo \<and> CHR ''/'' \<notin> set owner \<and> CHR ''/'' \<notin> set repo)"
    using False by (simp add: strings_Split_pair)
  ultimately show ?thesis by simp
qed

lemma parseUserRepo_Inl:
  "parseUserRepo s = Inl e \<longleftrightarrow> (e = ExpectedOwnerRepo \<and> count_list s (CHR ''/'') \<noteq> 1)"
  by (auto simp: parseUserRepo_def Let_def length_strings_Split split: if_splits)

lemma parseUserRepo_succeeds:
  "(\<exists>p. parseUserRepo s = Inr p) \<longleftrightarrow> count_list s (CHR ''/'') = 1"
  by (auto simp: parseUserRepo_def Let_def length_strings_Split split: if_splits)

text \<open>
  C4 (as amended). \<open>parseUserRepo\<close> succeeds exactly on the strings with one \<open>/\<close>,
  that is, when the split has two segments; the segments may be empty. On success it
  returns the segments before and after the separator, and every other string fails
  with the error "expected format 'owner/repo'".
\<close>

theorem C4_parseUserRepo_one_separator:
  "((\<exists>owner repo. parseUserRepo s = Inr (owner, repo)) \<longleftrightarrow> count_list s (CHR ''/'') = 1) \<and>
   (parseUserRepo s = Inr (owner, repo) \<longleftrightarrow>
      s = owner @ ''/'' @ repo \<and> CHR ''/'' \<notin> set owner \<and> CHR ''/'' \<notin> set repo) \<and>
   (count_list s (CHR ''/'') \<noteq> 1 \<longrightarrow> parseUserRepo s = Inl ExpectedOwnerRepo)"
  using parseUserRepo_succeeds[of s] parseUserRepo_Inr[of s owner repo]
    parseUserRepo_Inl[of s ExpectedOwnerRepo]
  by simp

text \<open>C4 at \<open>octo/tool\<close> (accepted) and at \<open>octo/tool/x\<close> (rejected).\<close>

theorem C4_parseUserRepo_one_separator_witness:
  "count_list ''octo/tool'' (CHR ''/'') = 1 \<and>
   parseUserRepo ''octo/tool'' = Inr (''octo'', ''tool'') \<and>
   count_list ''octo/tool/x'' (CHR ''/'') \<noteq> 1 \<and>
   parseUserRepo ''octo/tool/x'' = Inl ExpectedOwnerRepo"
  using C4_parseUserRepo_one_separator[of "''octo/tool''" "''octo''" "''tool''"]
    C4_parseUserRepo_one_separator[of "''octo/tool/x''" "''octo''" "''tool''"]
  by simp

text \<open>
  C4 as the specification states it fails: a leading or a trailing \<open>/\<close> gives an
  empty segment, and the string is accepted, with an empty owner or repository name.
\<close>

theorem C4_empty_segment_accepted:
  "strings_Split ''/repo'' (CHR ''/'') = [[], ''repo''] \<and>
   parseUserRepo ''/repo'' = Inr ([], ''repo'') \<and>
   parseUserRepo ''owner/'' = Inr (''owner'', [])"
  by (simp add: parseUserRepo_def)

text \<open>
  C9. \<open>parseUserRepo\<close> is a function of its argument alone, and when it returns
  \<open>(owner, repo)\<close>, the owner, the separator \<open>/\<close> and the repository name,
  concatenated, are the input.
\<close>

theorem C9_parseUserRepo_roundtrip:
  "parseUserRepo s = Inr (owner, repo) \<Longrightarrow> owner @ ''/'' @ repo = s"
  by (simp add: parseUserRepo_Inr)

text \<open>C9 at \<open>octo/tool\<close>.\<close>

theorem C9_parseUserRepo_roundtrip_witness:
  "parseUserRepo ''octo/tool'' = Inr (''octo'', ''tool'') \<and> ''octo'' @ ''/'' @ ''tool'' = ''octo/tool''"
proof -
  have p: "parseUserRepo ''octo/tool'' = Inr (''octo'', ''tool'')"
    by (simp add: parseUserRepo_def)
  from C9_parseUserRepo_roundtrip[OF p] p show ?thesis by simp
qed

subsection \<open>downloadAsset\<close>

lemmas ex_defs = ex_asset_def ex_asset_no_url_def ex_found_def ex_ok_def ex_unavailable_def
  ex_release_def ex_env_def ex_env_down_def ex_downloader_def ex_world_def ex_world_old_def

lemmas acc_defs = GetName_def GetURL_def GetTagName_def GetDraft_def GetPrerelease_def
  Header_Get_def Stat_ok_def made_dir_def put_file_def sent_def recorded_def
  first_request_def second_request_def

text \<open>
  C10. For an asset whose API URL is empty, \<open>downloadAsset\<close> returns the error
  "asset ... does not have an API URL" and leaves the state as it was: no file is
  looked up or created, no request is sent, and \<open>binPaths\<close> is unchanged.
\<close>

theorem C10_no_api_url:
  "GetURL a = [] \<Longrightarrow>
   downloadAsset E d a versionDir forceDownload w = (Some (NoApiURL (GetName a)), w)"
  by (simp add: downloadAsset_def)

text \<open>C10 at an asset without URL whose file is already there.\<close>

theorem C10_no_api_url_witness:
  "GetURL ex_asset_no_url = [] \<and>
   downloadAsset ex_env ex_downloader ex_asset_no_url ''out/tool-v1'' False ex_world_old
     = (Some (NoApiURL ''tool.tar.gz''), ex_world_old)"
proof -
  have h: "GetURL ex_asset_no_url = []"
    by (simp add: GetURL_def ex_asset_no_url_def)
  have n: "GetName ex_asset_no_url = ''tool.tar.gz''"
    by (simp add: GetName_def ex_asset_no_url_def)
  from C10_no_api_url[OF h, of ex_env ex_downloader "''out/tool-v1''" False ex_world_old] h n
  show ?thesis by simp
qed

lemma downloadAsset_exists:
  "GetURL a \<noteq> [] \<Longrightarrow> Stat_ok w (Join E versionDir (GetName a)) \<Longrightarrow>
   downloadAsset E d a versionDir False w =
     (None, recorded w (AlreadyExists (Join E versionDir (GetName a))) (Join E versionDir (GetName a)))"
  by (simp add: downloadAsset_def Let_def)

lemma downloadAsset_forced_fresh:
  "GetURL a \<noteq> [] \<Longrightarrow> Create E (Join E versionDir (GetName a)) = None \<Longrightarrow>
   downloadAsset E d a versionDir True w =
   downloadAsset E d a versionDir True (w\<lparr>nodes := (nodes w)(Join E versionDir (GetName a) := None)\<rparr>)"
  by (simp add: downloadAsset_def Let_def put_file_def)

lemma downloadAsset_first_request:
  "GetURL a \<noteq> [] \<Longrightarrow> forceDownload \<or> \<not> Stat_ok w (Join E versionDir (GetName a)) \<Longrightarrow>
   Create E (Join E versionDir (GetName a)) = None \<Longrightarrow> NewRequest E (GetURL a) = None \<Longrightarrow>
   \<exists>rs. requests (snd (downloadAsset E d a versionDir forceDownload w))
      = requests w @ first_request d (GetURL a) # rs"
  by (auto simp: downloadAsset_def Let_def put_file_def sent_def recorded_def
      split: option.splits sum.splits)

lemma downloadAsset_success_fetched:
  assumes "GetURL a \<noteq> []" "forceDownload \<or> \<not> Stat_ok w (Join E versionDir (GetName a))"
    and "downloadAsset E d a versionDir forceDownload w = (None, w')"
  shows "\<exists>resp resp2.
     Do E (first_request d (GetURL a)) = Inr resp \<and> resp_StatusCode resp = 302 \<and>
     Do E (second_request (Header_Get (resp_Header resp) ''Location'')) = Inr resp2 \<and>
     resp_StatusCode resp2 = 200 \<and>
     requests w' = requests w @
        [first_request d (GetURL a), second_request (Header_Get (resp_Header resp) ''Location'')] \<and>
     nodes w' (Join E versionDir (GetName a)) = Some (File (resp_Body resp2)) \<and>
     binPaths w' = binPaths w @ [Join E versionDir (GetName a)]"
  using assms
  by (auto simp: downloadAsset_def Let_def put_file_def sent_def recorded_def
      split: option.splits sum.splits if_splits)

text \<open>
  C2 (as amended). For an asset with a non-empty API URL and target path \<open>p\<close>:
  without \<open>forceDownload\<close>, when something is at \<open>p\<close>, the call succeeds,
  appends \<open>p\<close> to \<open>binPaths\<close>, prints the notice and changes nothing else (no
  request is sent). With \<open>forceDownload\<close> what is at \<open>p\<close> plays no part: once
  \<open>os.Create\<close> succeeds the call does what it does when nothing is there, the
  first request goes out when it can be built, and a call that succeeds has sent both
  requests and left the fetched body in the file at \<open>p\<close>.
\<close>

theorem C2_skip_unless_forced:
  assumes "GetURL a \<noteq> []" and "p = Join E versionDir (GetName a)"
  shows "(Stat_ok w p \<longrightarrow>
            downloadAsset E d a versionDir False w =
              (None, w\<lparr>stdout := stdout w @ [AlreadyExists p], binPaths := binPaths w @ [p]\<rparr>)) \<and>
         (Create E p = None \<longrightarrow>
            downloadAsset E d a versionDir True w =
            downloadAsset E d a versionDir True (w\<lparr>nodes := (nodes w)(p := None)\<rparr>)) \<and>
         (Create E p = None \<and> NewRequest E (GetURL a) = None \<longrightarrow>
            (\<exists>rs. requests (snd (downloadAsset E d a versionDir True w))
                    = requests w @ first_request d (GetURL a) # rs)) \<and>
         (\<forall>w'. downloadAsset E d a versionDir True w = (None, w') \<longrightarrow>
            (\<exists>resp resp2.
               Do E (first_request d (GetURL a)) = Inr resp \<and> resp_StatusCode resp = 302 \<and>
               Do E (second_request (Header_Get (resp_Header resp) ''Location'')) = Inr resp2 \<and>
               resp_StatusCode resp2 = 200 \<and>
               requests w' = requests w @
                 [first_request d (GetURL a),
                  second_request (Header_Get (resp_Header resp) ''Location'')] \<and>
               nodes w' p = Some (File (resp_Body resp2)) \<and>
               binPaths w' = binPaths w @ [p]))"
proof (intro conjI impI allI)
  assume "Stat_ok w p"
  with assms show "downloadAsset E d a versionDir False w =
      (None, w\<lparr>stdout := stdout w @ [AlreadyExists p], binPaths := binPaths w @ [p]\<rparr>)"
    by (simp add: downloadAsset_exists recorded_def)
next
  assume "Create E p = None"
  with assms show "downloadAsset E d a versionDir True w =
      downloadAsset E d a versionDir True (w\<lparr>nodes := (nodes w)(p := None)\<rparr>)"
    using downloadAsset_forced_fresh[of a E versionDir d w] by simp
next
  assume "Create E p = None \<and> NewRequest E (GetURL a) = None"
  with assms show "\<exists>rs. requests (snd (downloadAsset E d a versionDir True w))
      = requests w @ first_request d (GetURL a) # rs"
    using downloadAsset_first_request[of a True w E versionDir d] by simp
next
  fix w'
  assume "downloadAsset E d a versionDir True w = (None, w')"
  with assms show "\<exists>resp resp2.
       Do E (first_request d (GetURL a)) = Inr resp \<and> resp_StatusCode resp = 302 \<and>
       Do E (second_request (Header_Get (resp_Header resp) ''Location'')) = Inr resp2 \<and>
       resp_StatusCode resp2 = 200 \<and>
       requests w' = requests w @
         [first_request d (GetURL a),
          second_request (Header_Get (resp_Header resp) ''Location'')] \<and>
       nodes w' p = Some (File (resp_Body resp2)) \<and>
       binPaths w' = binPaths w @ [p]"
    using downloadAsset_success_fetched[of a True w E versionDir d w'] by simp
qed

lemma ex_forced_run:
  "downloadAsset ex_env ex_downloader ex_asset ''out/tool-v1'' True ex_world_old =
     (None, \<lparr>nodes = [''out/tool-v1/tool.tar.gz'' \<mapsto> File ''B''],
             binPaths = [''out/tool-v1/tool.tar.gz''],
             requests = [first_request ex_downloader ''https://api.example/assets/1'',
                         second_request ''https://cdn.example/asset''],
             stdout = [Downloaded ''tool.tar.gz'' ''out/tool-v1/tool.tar.gz'']\<rparr>)"
  by (simp add: downloadAsset_def Let_def ex_defs acc_defs)

text \<open>C2 (as amended) at the asset of the small world, with an old file at its path.\<close>

theorem C2_skip_unless_forced_witness:
  "GetURL ex_asset \<noteq> [] \<and>
   Stat_ok ex_world_old ''out/tool-v1/tool.tar.gz'' \<and>
   downloadAsset ex_env ex_downloader ex_asset ''out/tool-v1'' False ex_world_old =
     (None, ex_world_old\<lparr>stdout := [AlreadyExists ''out/tool-v1/tool.tar.gz''],
                          binPaths := [''out/tool-v1/tool.tar.gz'']\<rparr>) \<and>
   Create ex_env ''out/tool-v1/tool.tar.gz'' = None \<and>
   NewRequest ex_env (GetURL ex_asset) = None \<and>
   fst (downloadAsset ex_env ex_downloader ex_asset ''out/tool-v1'' True ex_world_old) = None \<and>
   nodes (snd (downloadAsset ex_env ex_downloader ex_asset ''out/tool-v1'' True ex_world_old))
     ''out/tool-v1/tool.tar.gz'' = Some (File ''B'')"
proof -
  have u: "GetURL ex_asset \<noteq> []"
    by (simp add: GetURL_def ex_asset_def)
  have p: "''out/tool-v1/tool.tar.gz'' = Join ex_env ''out/tool-v1'' (GetName ex_asset)"
    by (simp add: GetName_def ex_asset_def ex_env_def)
  have s: "Stat_ok ex_world_old ''out/tool-v1/tool.tar.gz''"
    by (simp add: Stat_ok_def ex_world_old_def ex_world_def)
  have c: "Create ex_env ''out/tool-v1/tool.tar.gz'' = None"
     "NewRequest ex_env (GetURL ex_asset) = None"
    by (simp_all add: ex_env_def)
  have e: "stdout ex_world_old = []" "binPaths ex_world_old = []"
    by (simp_all add: ex_world_old_def ex_world_def)
  have "downloadAsset ex_env ex_downloader ex_asset ''out/tool-v1'' False ex_world_old =
      (None, ex_world_old\<lparr>stdout := stdout ex_world_old @ [AlreadyExists ''out/tool-v1/tool.tar.gz''],
         binPaths := binPaths ex_world_old @ [''out/tool-v1/tool.tar.gz'']\<rparr>)"
    using C2_skip_unless_forced[OF u p, of ex_world_old ex_downloader] s by blast
  with u s c e show ?thesis
    by (simp add: ex_forced_run)
qed

text \<open>
  C2 as the specification states it, for every asset, fails: for an asset without API
  URL, with its file in place and without \<open>forceDownload\<close>, the call returns an
  error and appends nothing.
\<close>

theorem C2_no_api_url_existing_file:
  "Stat_ok ex_world_old (Join ex_env ''out/tool-v1'' (GetName ex_asset_no_url)) \<and>
   fst (downloadAsset ex_env ex_downloader ex_asset_no_url ''out/tool-v1'' False ex_world_old)
     = Some (NoApiURL ''tool.tar.gz'') \<and>
   binPaths (snd (downloadAsset ex_env ex_downloader ex_asset_no_url ''out/tool-v1'' False
     ex_world_old)) = []"
  by (simp add: downloadAsset_def Let_def ex_defs acc_defs)

lemma first_request_shape:
  "req_Method (first_request d u) = ''GET'' \<and> req_URL (first_request d u) = u \<and>
   \<not> req_FollowRedirects (first_request d u) \<and>
   (''Accept'', ''application/octet-stream'') \<in> set (req_Header (first_request d u)) \<and>
   (token d \<noteq> [] \<longrightarrow>
      (''Authorization'', ''token '' @ token d) \<in> set (req_Header (first_request d u)))"
  by (simp add: first_request_def)

lemma downloadAsset_first_response:
  assumes "GetURL a \<noteq> []" "forceDownload \<or> \<not> Stat_ok w (Join E versionDir (GetName a))"
    "Create E (Join E versionDir (GetName a)) = None" "NewRequest E (GetURL a) = None"
    and "downloadAsset E d a versionDir forceDownload w = (res, w')"
    and "Do E (first_request d (GetURL a)) = Inr resp"
  shows "((\<exists>st. res = Some (UnexpectedStatus st)) \<longleftrightarrow> resp_StatusCode resp \<noteq> 302) \<and>
     (resp_StatusCode resp \<noteq> 302 \<longrightarrow>
        res = Some (UnexpectedStatus (resp_Status resp)) \<and>
        requests w' = requests w @ [first_request d (GetURL a)]) \<and>
     (resp_StatusCode resp = 302 \<and> Header_Get (resp_Header resp) ''Location'' = [] \<longrightarrow>
        res = Some (NoLocation (GetName a)) \<and>
        requests w' = requests w @ [first_request d (GetURL a)])"
  using assms
  by (auto simp: downloadAsset_def Let_def put_file_def sent_def recorded_def
      split: option.splits sum.splits if_splits)

lemma downloadAsset_second_response:
  assumes "GetURL a \<noteq> []" "forceDownload \<or> \<not> Stat_ok w (Join E versionDir (GetName a))"
    "Create E (Join E versionDir (GetName a)) = None" "NewRequest E (GetURL a) = None"
    and "downloadAsset E d a versionDir forceDownload w = (res, w')"
    and "Do E (first_request d (GetURL a)) = Inr resp"
    and "resp_StatusCode resp = 302" "Header_Get (resp_Header resp) ''Location'' = loc"
      "loc \<noteq> []" "NewRequest E loc = None"
  shows "requests w' = requests w @ [first_request d (GetURL a), second_request loc] \<and>
     (\<forall>resp2. Do E (second_request loc) = Inr resp2 \<longrightarrow>
        (resp_StatusCode resp2 \<noteq> 200 \<longrightarrow> res = Some (BadStatus (resp_Status resp2))) \<and>
        (resp_StatusCode resp2 = 200 \<and>
         ioCopy E (Join E versionDir (GetName a)) (resp_Body resp2) = None \<longrightarrow>
           res = None \<and>
           nodes w' (Join E versionDir (GetName a)) = Some (File (resp_Body resp2))))"
  using assms
  by (auto simp: downloadAsset_def Let_def put_file_def sent_def recorded_def
      split: option.splits sum.splits if_splits)

text \<open>
  C5. When \<open>downloadAsset\<close> has created the file and built the first request, that
  request is a GET of the asset's API URL with \<open>Accept: application/octet-stream\<close>,
  with the token in \<open>Authorization\<close> when there is one, and redirects are not
  followed. For the response to it: the call fails with the unexpected-status error
  exactly when the status is not 302; it fails when the 302 has no \<open>Location\<close>;
  otherwise, the second request being built, a second GET goes to the \<open>Location\<close>,
  the call fails with the bad-status error when the status of its response is not a
  2xx (the code tests for 200), and on a 200 whose body is copied without error the
  file holds exactly the body.
\<close>

theorem C5_two_step_resolution:
  assumes "GetURL a \<noteq> []" and "p = Join E versionDir (GetName a)"
    and "forceDownload \<or> \<not> Stat_ok w p" and "Create E p = None"
    and "NewRequest E (GetURL a) = None"
    and "req = first_request d (GetURL a)"
    and "downloadAsset E d a versionDir forceDownload w = (res, w')"
  shows "req_Method req = ''GET'' \<and> req_URL req = GetURL a \<and> \<not> req_FollowRedirects req \<and>
     (''Accept'', ''application/octet-stream'') \<in> set (req_Header req) \<and>
     (token d \<noteq> [] \<longrightarrow> (''Authorization'', ''token '' @ token d) \<in> set (req_Header req)) \<and>
     (\<exists>rs. requests w' = requests w @ req # rs) \<and>
     (\<forall>resp loc. Do E req = Inr resp \<and> loc = Header_Get (resp_Header resp) ''Location'' \<longrightarrow>
        ((\<exists>st. res = Some (UnexpectedStatus st)) \<longleftrightarrow> resp_StatusCode resp \<noteq> 302) \<and>
        (resp_StatusCode resp \<noteq> 302 \<longrightarrow>
           res = Some (UnexpectedStatus (resp_Status resp)) \<and> requests w' = requests w @ [req]) \<and>
        (resp_StatusCode resp = 302 \<and> loc = [] \<longrightarrow>
           res = Some (NoLocation (GetName a)) \<and> requests w' = requests w @ [req]) \<and>
        (resp_StatusCode resp = 302 \<and> loc \<noteq> [] \<and> NewRequest E loc = None \<longrightarrow>
           requests w' = requests w @ [req, second_request loc] \<and>
           req_Method (second_request loc) = ''GET'' \<and> req_URL (second_request loc) = loc \<and>
           (\<forall>resp2. Do E (second_request loc) = Inr resp2 \<longrightarrow>
              (\<not> (200 \<le> resp_StatusCode resp2 \<and> resp_StatusCode resp2 < 300) \<longrightarrow>
                 res = Some (BadStatus (resp_Status resp2))) \<and>
              (resp_StatusCode resp2 = 200 \<and> ioCopy E p (resp_Body resp2) = None \<longrightarrow>
                 res = None \<and> nodes w' p = Some (File (resp_Body resp2))))))"
proof -
  have shape: "req_Method req = ''GET'' \<and> req_URL req = GetURL a \<and> \<not> req_FollowRedirects req \<and>
     (''Accept'', ''application/octet-stream'') \<in> set (req_Header req) \<and>
     (token d \<noteq> [] \<longrightarrow> (''Authorization'', ''token '' @ token d) \<in> set (req_Header req))"
    using first_request_shape[of d "GetURL a"] assms(6) by simp
  have first: "\<exists>rs. requests w' = requests w @ req # rs"
    using downloadAsset_first_request[of a forceDownload w E versionDir d] assms by simp
  have rest: "((\<exists>st. res = Some (UnexpectedStatus st)) \<longleftrightarrow> resp_StatusCode resp \<noteq> 302) \<and>
        (resp_StatusCode resp \<noteq> 302 \<longrightarrow>
           res = Some (UnexpectedStatus (resp_Status resp)) \<and> requests w' = requests w @ [req]) \<and>
        (resp_StatusCode resp = 302 \<and> loc = [] \<longrightarrow>
           res = Some (NoLocation (GetName a)) \<and> requests w' = requests w @ [req]) \<and>
        (resp_StatusCode resp = 302 \<and> loc \<noteq> [] \<and> NewRequest E loc = None \<longrightarrow>
           requests w' = requests w @ [req, second_request loc] \<and>
           req_Method (second_request loc) = ''GET'' \<and> req_URL (second_request loc) = loc \<and>
           (\<forall>resp2. Do E (second_request loc) = Inr resp2 \<longrightarrow>
              (\<not> (200 \<le> resp_StatusCode resp2 \<and> resp_StatusCode resp2 < 300) \<longrightarrow>
                 res = Some (BadStatus (resp_Status resp2))) \<and>
              (resp_StatusCode resp2 = 200 \<and> ioCopy E p (resp_Body resp2) = None \<longrightarrow>
                 res = None \<and> nodes w' p = Some (File (resp_Body resp2)))))"
    if r: "Do E req = Inr resp" and l: "loc = Header_Get (resp_Header resp) ''Location''"
    for resp loc
  proof -
    have a1: "((\<exists>st. res = Some (UnexpectedStatus st)) \<longleftrightarrow> resp_StatusCode resp \<noteq> 302) \<and>
        (resp_StatusCode resp \<noteq> 302 \<longrightarrow>
           res = Some (UnexpectedStatus (resp_Status resp)) \<and> requests w' = requests w @ [req]) \<and>
        (resp_StatusCode resp = 302 \<and> loc = [] \<longrightarrow>
           res = Some (NoLocation (GetName a)) \<and> requests w' = requests w @ [req])"
      using downloadAsset_first_response[of a forceDownload w E versionDir d res w' resp]
        assms r l by simp
    have a2: "requests w' = requests w @ [req, second_request loc] \<and>
           req_Method (second_request loc) = ''GET'' \<and> req_URL (second_request loc) = loc \<and>
           (\<forall>resp2. Do E (second_request loc) = Inr resp2 \<longrightarrow>
              (\<not> (200 \<le> resp_StatusCode resp2 \<and> resp_StatusCode resp2 < 300) \<longrightarrow>
                 res = Some (BadStatus (resp_Status resp2))) \<and>
              (resp_StatusCode resp2 = 200 \<and> ioCopy E p (resp_Body resp2) = None \<longrightarrow>
                 res = None \<and> nodes w' p = Some (File (resp_Body resp2))))"
      if "resp_StatusCode resp = 302" "loc \<noteq> []" "NewRequest E loc = None"
      using downloadAsset_second_response[of a forceDownload w E versionDir d res w' resp loc]
        assms r l that by (auto simp: second_request_def)
    from a1 a2 show ?thesis by blast
  qed
  from shape first rest show ?thesis by blast
qed

text \<open>C5 in the small world: a 302 to the CDN, then a 200 with the body \<open>B\<close>.\<close>

theorem C5_two_step_resolution_witness:
  "GetURL ex_asset \<noteq> [] \<and>
   \<not> Stat_ok ex_world ''out/tool-v1/tool.tar.gz'' \<and>
   Create ex_env ''out/tool-v1/tool.tar.gz'' = None \<and>
   NewRequest ex_env (GetURL ex_asset) = None \<and>
   Do ex_env (first_request ex_downloader (GetURL ex_asset)) = Inr ex_found \<and>
   resp_StatusCode ex_found = 302 \<and>
   Header_Get (resp_Header ex_found) ''Location'' = ''https://cdn.example/asset'' \<and>
   NewRequest ex_env ''https://cdn.example/asset'' = None \<and>
   Do ex_env (second_request ''https://cdn.example/asset'') = Inr ex_ok \<and>
   resp_StatusCode ex_ok = 200 \<and> resp_Body ex_ok = ''B'' \<and>
   ioCopy ex_env ''out/tool-v1/tool.tar.gz'' ''B'' = None \<and>
   fst (downloadAsset ex_env ex_downloader ex_asset ''out/tool-v1'' False ex_world) = None \<and>
   nodes (snd (downloadAsset ex_env ex_downloader ex_asset ''out/tool-v1'' False ex_world))
     ''out/tool-v1/tool.tar.gz'' = Some (File ''B'') \<and>
   requests (snd (downloadAsset ex_env ex_downloader ex_asset ''out/tool-v1'' False ex_world))
     = [first_request ex_downloader (GetURL ex_asset),
        second_request ''https://cdn.example/asset'']"
proof -
  define R where "R = downloadAsset ex_env ex_downloader ex_asset ''out/tool-v1'' False ex_world"
  have u: "GetURL ex_asset \<noteq> []"
    by (simp add: GetURL_def ex_asset_def)
  have p: "''out/tool-v1/tool.tar.gz'' = Join ex_env ''out/tool-v1'' (GetName ex_asset)"
    by (simp add: GetName_def ex_asset_def ex_env_def)
  have s: "False \<or> \<not> Stat_ok ex_world ''out/tool-v1/tool.tar.gz''"
    by (simp add: Stat_ok_def ex_world_def)
  have c: "Create ex_env ''out/tool-v1/tool.tar.gz'' = None"
    and n: "NewRequest ex_env (GetURL ex_asset) = None"
    and n2: "NewRequest ex_env ''https://cdn.example/asset'' = None"
    and io: "ioCopy ex_env ''out/tool-v1/tool.tar.gz'' (resp_Body ex_ok) = None"
    by (simp_all add: ex_env_def)
  have d1: "Do ex_env (first_request ex_downloader (GetURL ex_asset)) = Inr ex_found"
    by (simp add: ex_env_def first_request_def GetURL_def ex_asset_def)
  have d2: "Do ex_env (second_request ''https://cdn.example/asset'') = Inr ex_ok"
    by (simp add: ex_env_def second_request_def)
  have f: "resp_StatusCode ex_found = 302"
    and l: "''https://cdn.example/asset'' = Header_Get (resp_Header ex_found) ''Location''"
    and l0: "''https://cdn.example/asset'' \<noteq> []"
    by (simp_all add: ex_found_def Header_Get_def)
  have k: "resp_StatusCode ex_ok = 200" and b: "resp_Body ex_ok = ''B''"
    by (simp_all add: ex_ok_def)
  have pr: "downloadAsset ex_env ex_downloader ex_asset ''out/tool-v1'' False ex_world
      = (fst R, snd R)"
    by (simp add: R_def)
  from C5_two_step_resolution[OF u p s c n refl pr] d1 l f l0 n2
  have q: "requests (snd R) = requests ex_world @
        [first_request ex_downloader (GetURL ex_asset), second_request ''https://cdn.example/asset'']"
    and "\<forall>resp2. Do ex_env (second_request ''https://cdn.example/asset'') = Inr resp2 \<longrightarrow>
          (resp_StatusCode resp2 = 200 \<and>
           ioCopy ex_env ''out/tool-v1/tool.tar.gz'' (resp_Body resp2) = None \<longrightarrow>
           fst R = None \<and> nodes (snd R) ''out/tool-v1/tool.tar.gz'' = Some (File (resp_Body resp2)))"
    by blast+
  with d2 k io b
  have "fst R = None \<and> nodes (snd R) ''out/tool-v1/tool.tar.gz'' = Some (File ''B'')"
    by auto
  moreover have "requests ex_world = []"
    by (simp add: ex_world_def)
  ultimately show ?thesis
    using u s c n d1 f l n2 d2 k b io q unfolding R_def by simp
qed

lemma downloadAsset_failed_file:
  assumes "GetURL a \<noteq> []" "forceDownload \<or> \<not> Stat_ok w (Join E versionDir (GetName a))"
    "Create E (Join E versionDir (GetName a)) = None"
    and "downloadAsset E d a versionDir forceDownload w = (Some err, w')"
  shows "nodes w' (Join E versionDir (GetName a)) = Some (File []) \<or>
     (\<exists>resp resp2 n e.
        Do E (first_request d (GetURL a)) = Inr resp \<and>
        Do E (second_request (Header_Get (resp_Header resp) ''Location'')) = Inr resp2 \<and>
        ioCopy E (Join E versionDir (GetName a)) (resp_Body resp2) = Some (n, e) \<and>
        err = WriteFailed (Join E versionDir (GetName a)) e \<and>
        nodes w' (Join E versionDir (GetName a)) = Some (File (take n (resp_Body resp2))))"
  using assms
  by (auto simp: downloadAsset_def Let_def put_file_def sent_def recorded_def
      split: option.splits sum.splits if_splits)

lemma downloadAsset_no_request_file:
  assumes "GetURL a \<noteq> []" "forceDownload \<or> \<not> Stat_ok w (Join E versionDir (GetName a))"
    "Create E (Join E versionDir (GetName a)) = None"
    and "downloadAsset E d a versionDir forceDownload w = (Some err, w')"
    and "requests w' = requests w"
  shows "nodes w' (Join E versionDir (GetName a)) = Some (File [])"
  using assms
  by (auto simp: downloadAsset_def Let_def put_file_def sent_def recorded_def
      split: option.splits sum.splits if_splits)

text \<open>
  C8. When \<open>downloadAsset\<close> is past the existence check and has created the file,
  and then fails, a file is left at the target path: empty, or after a failed copy the
  part of the body that was written. It is there even when no request went out. Any
  later call without \<open>forceDownload\<close> that still finds it succeeds at once, appends
  the path to \<open>binPaths\<close> and sends no request.
\<close>

theorem C8_failed_download_leaves_file:
  assumes "GetURL a \<noteq> []" and "p = Join E versionDir (GetName a)"
    and "forceDownload \<or> \<not> Stat_ok w p" and "Create E p = None"
    and "downloadAsset E d a versionDir forceDownload w = (Some err, w')"
    and "Join E' = Join E"
  shows "(\<exists>c. nodes w' p = Some (File c) \<and>
            (c = [] \<or>
             (\<exists>resp resp2 n e.
                Do E (first_request d (GetURL a)) = Inr resp \<and>
                Do E (second_request (Header_Get (resp_Header resp) ''Location'')) = Inr resp2 \<and>
                ioCopy E p (resp_Body resp2) = Some (n, e) \<and> err = WriteFailed p e \<and>
                c = take n (resp_Body resp2)))) \<and>
         (requests w' = requests w \<longrightarrow> nodes w' p = Some (File [])) \<and>
         (\<forall>w''. nodes w'' p = nodes w' p \<longrightarrow>
            downloadAsset E' d' a versionDir False w'' =
              (None, w''\<lparr>stdout := stdout w'' @ [AlreadyExists p],
                         binPaths := binPaths w'' @ [p]\<rparr>))"
proof -
  have left: "\<exists>c. nodes w' p = Some (File c) \<and>
            (c = [] \<or>
             (\<exists>resp resp2 n e.
                Do E (first_request d (GetURL a)) = Inr resp \<and>
                Do E (second_request (Header_Get (resp_Header resp) ''Location'')) = Inr resp2 \<and>
                ioCopy E p (resp_Body resp2) = Some (n, e) \<and> err = WriteFailed p e \<and>
                c = take n (resp_Body resp2)))"
    using downloadAsset_failed_file[of a forceDownload w E versionDir d err w'] assms(1-5)
    by auto
  have early: "requests w' = requests w \<longrightarrow> nodes w' p = Some (File [])"
    using downloadAsset_no_request_file[of a forceDownload w E versionDir d err w'] assms(1-5)
    by simp
  have again: "downloadAsset E' d' a versionDir False w'' =
              (None, w''\<lparr>stdout := stdout w'' @ [AlreadyExists p],
                         binPaths := binPaths w'' @ [p]\<rparr>)"
    if "nodes w'' p = nodes w' p" for w''
  proof -
    from left that have "Stat_ok w'' (Join E' versionDir (GetName a))"
      using assms(2,6) by (auto simp: Stat_ok_def)
    with assms(1) show ?thesis
      using downloadAsset_exists[of a w'' E' versionDir d'] assms(2,6)
      by (simp add: recorded_def)
  qed
  from left early again show ?thesis by blast
qed

lemma ex_failed_run:
  "downloadAsset ex_env_down ex_downloader ex_asset ''out/tool-v1'' False ex_world =
     (Some (UnexpectedStatus ''503 Service Unavailable''),
      \<lparr>nodes = [''out/tool-v1/tool.tar.gz'' \<mapsto> File []], binPaths = [],
       requests = [first_request ex_downloader ''https://api.example/assets/1''],
       stdout = []\<rparr>)"
  by (simp add: downloadAsset_def Let_def ex_defs acc_defs)

text \<open>C8 in the small world with the API answering 503, then a second run with the API up.\<close>

theorem C8_failed_download_leaves_file_witness:
  "GetURL ex_asset \<noteq> [] \<and>
   \<not> Stat_ok ex_world ''out/tool-v1/tool.tar.gz'' \<and>
   Create ex_env_down ''out/tool-v1/tool.tar.gz'' = None \<and>
   fst (downloadAsset ex_env_down ex_downloader ex_asset ''out/tool-v1'' False ex_world)
     = Some (UnexpectedStatus ''503 Service Unavailable'') \<and>
   Join ex_env = Join ex_env_down \<and>
   nodes (snd (downloadAsset ex_env_down ex_downloader ex_asset ''out/tool-v1'' False ex_world))
     ''out/tool-v1/tool.tar.gz'' = Some (File []) \<and>
   downloadAsset ex_env ex_downloader ex_asset ''out/tool-v1'' False
     (snd (downloadAsset ex_env_down ex_downloader ex_asset ''out/tool-v1'' False ex_world)) =
     (None,
      \<lparr>nodes = [''out/tool-v1/tool.tar.gz'' \<mapsto> File []],
       binPaths = [''out/tool-v1/tool.tar.gz''],
       requests = [first_request ex_downloader ''https://api.example/assets/1''],
       stdout = [AlreadyExists ''out/tool-v1/tool.tar.gz'']\<rparr>)"
proof -
  have u: "GetURL ex_asset \<noteq> []"
    by (simp add: GetURL_def ex_asset_def)
  have p: "''out/tool-v1/tool.tar.gz'' = Join ex_env_down ''out/tool-v1'' (GetName ex_asset)"
    by (simp add: GetName_def ex_asset_def ex_env_down_def ex_env_def)
  have s: "False \<or> \<not> Stat_ok ex_world ''out/tool-v1/tool.tar.gz''"
    by (simp add: Stat_ok_def ex_world_def)
  have c: "Create ex_env_down ''out/tool-v1/tool.tar.gz'' = None"
    and j: "Join ex_env = Join ex_env_down"
    by (simp_all add: ex_env_down_def ex_env_def)
  note T = C8_failed_download_leaves_file[OF u p s c ex_failed_run j, of ex_downloader]
  from T have "downloadAsset ex_env ex_downloader ex_asset ''out/tool-v1'' False
      \<lparr>nodes = [''out/tool-v1/tool.tar.gz'' \<mapsto> File []], binPaths = [],
       requests = [first_request ex_downloader ''https://api.example/assets/1''],
       stdout = []\<rparr> =
     (None,
      \<lparr>nodes = [''out/tool-v1/tool.tar.gz'' \<mapsto> File []],
       binPaths = [''out/tool-v1/tool.tar.gz''],
       requests = [first_request ex_downloader ''https://api.example/assets/1''],
       stdout = [AlreadyExists ''out/tool-v1/tool.tar.gz'']\<rparr>)"
    by simp
  with u s c j show ?thesis
    by (simp add: ex_failed_run)
qed

subsection \<open>downloadLatestRelease\<close>

lemma resolveRelease_plan:
  "resolveRelease E d owner repo w =
     (case plan_of E d owner repo of
        Inl e \<Rightarrow> Inl e
      | Inr (versionDir, forceDownload, assets) \<Rightarrow>
          Inr (versionDir, forceDownload, assets, made_dir w versionDir))"
  by (simp add: plan_of_def resolveRelease_def Let_def split: sum.splits option.splits)

lemma plan_of_resolved:
  assumes "GetLatestRelease E owner repo = Inr rel" "\<not> GetDraft rel" "\<not> GetPrerelease rel"
    "r_Assets rel \<noteq> []"
  shows "plan_of E d owner repo =
     (case MkdirAll E (Join E (destDir d)
             (repo @ ''-'' @ (if GetTagName rel = [] then ''latest'' else GetTagName rel))) of
        Some e \<Rightarrow> Inl (VersionDirFailed (Join E (destDir d)
             (repo @ ''-'' @ (if GetTagName rel = [] then ''latest'' else GetTagName rel))) e)
      | None \<Rightarrow> Inr (Join E (destDir d)
             (repo @ ''-'' @ (if GetTagName rel = [] then ''latest'' else GetTagName rel)),
             GetTagName rel = [], r_Assets rel))"
  using assms
  by (simp add: plan_of_def resolveRelease_def Let_def split: option.splits)

lemma plan_of_Inl:
  "(\<exists>e. plan_of E d owner repo = Inl e) \<longleftrightarrow>
     ((\<exists>e. GetLatestRelease E owner repo = Inl e) \<or>
      (\<exists>rel. GetLatestRelease E owner repo = Inr rel \<and>
         (GetDraft rel \<or> GetPrerelease rel \<or> r_Assets rel = [] \<or>
          MkdirAll E (Join E (destDir d)
             (repo @ ''-'' @ (if GetTagName rel = [] then ''latest'' else GetTagName rel)))
            \<noteq> None)))"
  by (auto simp: plan_of_def resolveRelease_def Let_def split: sum.splits option.splits)

lemma downloadLatestRelease_plan:
  "downloadLatestRelease E d owner repo w =
     (case plan_of E d owner repo of
        Inl e \<Rightarrow> (Some e, w)
      | Inr (versionDir, forceDownload, assets) \<Rightarrow>
          (None, downloadAssets E d owner repo versionDir forceDownload assets
                   (made_dir w versionDir)))"
  by (simp add: downloadLatestRelease_def resolveRelease_plan split: sum.splits)

text \<open>
  C3. For a release that resolves (fetched, neither draft nor prerelease, with assets):
  when its tag is empty the version directory is the destination joined with
  \<open><repo>-latest\<close> and the loop over the assets runs with \<open>forceDownload\<close> true;
  when its tag is a non-empty \<open>T\<close> the directory is the destination joined with
  \<open><repo>-T\<close> and the loop runs with \<open>forceDownload\<close> false. The directory is the
  one \<open>os.MkdirAll\<close> is called on, and the one its error names.
\<close>

theorem C3_directory_and_force:
  assumes "GetLatestRelease E owner repo = Inr rel"
    and "\<not> GetDraft rel" and "\<not> GetPrerelease rel" and "r_Assets rel \<noteq> []"
  shows "(GetTagName rel = [] \<and> dir = Join E (destDir d) (repo @ ''-latest'') \<longrightarrow>
           (MkdirAll E dir = None \<longrightarrow>
              downloadLatestRelease E d owner repo w =
                (None, downloadAssets E d owner repo dir True (r_Assets rel) (made_dir w dir))) \<and>
           (\<forall>e. MkdirAll E dir = Some e \<longrightarrow>
              downloadLatestRelease E d owner repo w = (Some (VersionDirFailed dir e), w))) \<and>
         (GetTagName rel \<noteq> [] \<and> dir = Join E (destDir d) (repo @ ''-'' @ GetTagName rel) \<longrightarrow>
           (MkdirAll E dir = None \<longrightarrow>
              downloadLatestRelease E d owner repo w =
                (None, downloadAssets E d owner repo dir False (r_Assets rel) (made_dir w dir))) \<and>
           (\<forall>e. MkdirAll E dir = Some e \<longrightarrow>
              downloadLatestRelease E d owner repo w = (Some (VersionDirFailed dir e), w)))"
  using plan_of_resolved[OF assms, of d]
  by (auto simp: downloadLatestRelease_plan)

text \<open>C3 at the untagged release of \<open>next\<close> and at the release \<open>v1\<close> of \<open>tool\<close>.\<close>

theorem C3_directory_and_force_witness:
  "GetLatestRelease ex_env ''octo'' ''next'' = Inr (ex_release\<lparr>r_TagName := None\<rparr>) \<and>
   \<not> GetDraft (ex_release\<lparr>r_TagName := None\<rparr>) \<and>
   \<not> GetPrerelease (ex_release\<lparr>r_TagName := None\<rparr>) \<and>
   r_Assets (ex_release\<lparr>r_TagName := None\<rparr>) \<noteq> [] \<and>
   GetTagName (ex_release\<lparr>r_TagName := None\<rparr>) = [] \<and>
   ''out/next-latest'' = Join ex_env (destDir ex_downloader) (''next'' @ ''-latest'') \<and>
   MkdirAll ex_env ''out/next-latest'' = None \<and>
   downloadLatestRelease ex_env ex_downloader ''octo'' ''next'' ex_world =
     (None, downloadAssets ex_env ex_downloader ''octo'' ''next'' ''out/next-latest'' True [ex_asset]
        (made_dir ex_world ''out/next-latest'')) \<and>
   GetLatestRelease ex_env ''octo'' ''tool'' = Inr ex_release \<and>
   GetTagName ex_release = ''v1'' \<and>
   ''out/tool-v1'' = Join ex_env (destDir ex_downloader) (''tool'' @ ''-'' @ GetTagName ex_release) \<and>
   MkdirAll ex_env ''out/tool-v1'' = None \<and>
   downloadLatestRelease ex_env ex_downloader ''octo'' ''tool'' ex_world =
     (None, downloadAssets ex_env ex_downloader ''octo'' ''tool'' ''out/tool-v1'' False [ex_asset]
        (made_dir ex_world ''out/tool-v1''))"
proof -
  let ?next = "ex_release\<lparr>r_TagName := None\<rparr>"
  have g: "GetLatestRelease ex_env ''octo'' ''next'' = Inr ?next"
    "GetLatestRelease ex_env ''octo'' ''tool'' = Inr ex_release"
    by (simp_all add: ex_env_def)
  have n: "\<not> GetDraft ?next" "\<not> GetPrerelease ?next" "r_Assets ?next \<noteq> []"
    "GetTagName ?next = []" "r_Assets ?next = [ex_asset]"
    by (simp_all add: ex_release_def acc_defs)
  have t: "\<not> GetDraft ex_release" "\<not> GetPrerelease ex_release" "r_Assets ex_release \<noteq> []"
    "GetTagName ex_release = ''v1''" "r_Assets ex_release = [ex_asset]"
    by (simp_all add: ex_release_def acc_defs)
  have j: "''out/next-latest'' = Join ex_env (destDir ex_downloader) (''next'' @ ''-latest'')"
    "''out/tool-v1'' = Join ex_env (destDir ex_downloader) (''tool'' @ ''-'' @ GetTagName ex_release)"
    by (simp_all add: ex_env_def ex_downloader_def t)
  have m: "MkdirAll ex_env ''out/next-latest'' = None" "MkdirAll ex_env ''out/tool-v1'' = None"
    by (simp_all add: ex_env_def)
  have a: "downloadLatestRelease ex_env ex_downloader ''octo'' ''next'' ex_world =
     (None, downloadAssets ex_env ex_downloader ''octo'' ''next'' ''out/next-latest'' True [ex_asset]
        (made_dir ex_world ''out/next-latest''))"
    using C3_directory_and_force[OF g(1) n(1,2,3), of "''out/next-latest''" ex_downloader ex_world]
      n(4,5) j(1) m(1) by simp
  have b: "downloadLatestRelease ex_env ex_downloader ''octo'' ''tool'' ex_world =
     (None, downloadAssets ex_env ex_downloader ''octo'' ''tool'' ''out/tool-v1'' False [ex_asset]
        (made_dir ex_world ''out/tool-v1''))"
    using C3_directory_and_force[OF g(2) t(1,2,3), of "''out/tool-v1''" ex_downloader ex_world]
      t(4,5) j(2) m(2) by simp
  from g n t j m a b show ?thesis by simp
qed

subsection \<open>The goroutines return\<close>

text \<open>
  Every step of a goroutine that has not returned goes down in \<open>task_order\<close>: a
  goroutine left alone returns, so \<open>d.wg.Wait()\<close> does.
\<close>

lemma copy_limit_le: "copy_limit E p body \<le> length body"
  by (simp add: copy_limit_def split: option.splits)

lemma asset_step_decreases:
  assumes "asset_step E d n owner repo v f a p w = (w', q)"
  shows "case q of
      None \<Rightarrow> True
    | Some p' \<Rightarrow> rank p' < rank p \<or>
        (rank p' = rank p \<and>
         bytes_left E (InLoop owner repo v f (a # as) p') < bytes_left E (InLoop owner repo v f (a # as) p))"
proof (cases p)
  case (Copying body off)
  with assms copy_limit_le[of E "Join E v (GetName a)" body] show ?thesis
    by (auto simp: Let_def split: if_splits option.splits)
qed (insert assms, auto simp: Let_def split: if_splits option.splits sum.splits)

lemma task_step_decreases:
  "t \<noteq> Finished \<Longrightarrow> task_step E d n t c = (c', t') \<Longrightarrow>
   ((E, d, t', c'), (E, d, t, c)) \<in> task_order"
proof (induction E d n t c rule: task_step.induct)
  case (4 E d n owner repo v f a as p w ch)
  obtain w1 q where s: "asset_step E d n owner repo v f a p w = (w1, q)"
    by (cases "asset_step E d n owner repo v f a p w") auto
  from asset_step_decreases[OF s, of as] s 4 show ?case
    by (cases q) (auto simp: task_order_def)
qed (auto simp: task_order_def split: sum.splits option.splits)

termination finish_task
  apply (relation task_order)
   apply (simp add: task_order_def)
  apply (simp add: task_step_decreases)
  done

declare finish_task.simps [simp del]

lemma finish_task_Finished [simp]: "finish_task E d Finished c = c"
  by (simp add: finish_task.simps)

lemma finish_task_step:
  "t \<noteq> Finished \<Longrightarrow> task_step E d (piece_left t) t c = (c', t') \<Longrightarrow>
   finish_task E d t c = finish_task E d t' c'"
  by (subst finish_task.simps) simp

subsection \<open>A goroutine alone\<close>

text \<open>
  The steps make up the Go functions: a goroutine that runs alone from its start does
  what \<open>downloadLatestRelease\<close>, \<open>downloadAsset\<close> and the send to the channel do.
\<close>

lemma resolveRelease_accept:
  "resolveRelease E d owner repo w =
     (case acceptRelease E d owner repo of
        Inl e \<Rightarrow> Inl e
      | Inr (v, f, as) \<Rightarrow>
          (case MkdirAll E v of
             Some e \<Rightarrow> Inl (VersionDirFailed v e)
           | None \<Rightarrow> Inr (v, f, as, made_dir w v)))"
  by (simp add: resolveRelease_def acceptRelease_def Let_def split: sum.splits)

lemma finish_ToAppend:
  "finish_task E d (InLoop owner repo v f (a # as) ToAppend) (w, ch) =
   finish_task E d (InLoop owner repo v f as Top)
     (w\<lparr>binPaths := binPaths w @ [Join E v (GetName a)]\<rparr>, ch)"
  by (rule finish_task_step) simp_all

lemma finish_Failed:
  "finish_task E d (InLoop owner repo v f (a # as) (Failed err)) (w, ch) =
   finish_task E d (InLoop owner repo v f as Top)
     (warned w owner repo a err, ch)"
  by (rule finish_task_step) (simp_all add: warned_def)

lemma finish_Found:
  "finish_task E d (InLoop owner repo v f (a # as) Found) (w, ch) =
   finish_task E d (InLoop owner repo v f as Top)
     (recorded w (AlreadyExists (Join E v (GetName a))) (Join E v (GetName a)), ch)"
proof -
  have "finish_task E d (InLoop owner repo v f (a # as) Found) (w, ch) =
      finish_task E d (InLoop owner repo v f (a # as) ToAppend)
        (w\<lparr>stdout := stdout w @ [AlreadyExists (Join E v (GetName a))]\<rparr>, ch)"
    by (rule finish_task_step) simp_all
  then show ?thesis by (simp add: finish_ToAppend recorded_def)
qed

lemma finish_Copied:
  "finish_task E d (InLoop owner repo v f (a # as) Copied) (w, ch) =
   finish_task E d (InLoop owner repo v f as Top)
     (recorded w (Downloaded (GetName a) (Join E v (GetName a))) (Join E v (GetName a)), ch)"
proof -
  have "finish_task E d (InLoop owner repo v f (a # as) Copied) (w, ch) =
      finish_task E d (InLoop owner repo v f (a # as) ToAppend)
        (w\<lparr>stdout := stdout w @ [Downloaded (GetName a) (Join E v (GetName a))]\<rparr>, ch)"
    by (rule finish_task_step) simp_all
  then show ?thesis by (simp add: finish_ToAppend recorded_def)
qed

lemma put_file_same: "nodes w p = Some (File c) \<Longrightarrow> put_file w p c = w"
  by (simp add: put_file_def fun_upd_idem)

lemma finish_Copying_end:
  assumes "nodes w (Join E v (GetName a)) = Some (File (take (copy_limit E (Join E v (GetName a)) body) body))"
  shows "finish_task E d (InLoop owner repo v f (a # as)
        (Copying body (copy_limit E (Join E v (GetName a)) body))) (w, ch) =
     finish_task E d (InLoop owner repo v f as Top)
       (rest_copy E owner repo a (Join E v (GetName a)) body w, ch)"
proof (cases "ioCopy E (Join E v (GetName a)) body")
  case None
  then have l: "copy_limit E (Join E v (GetName a)) body = length body"
    by (simp add: copy_limit_def)
  have "finish_task E d (InLoop owner repo v f (a # as) (Copying body (length body))) (w, ch) =
      finish_task E d (InLoop owner repo v f (a # as) Copied) (w, ch)"
    by (rule finish_task_step) (simp_all add: l None)
  with assms l None show ?thesis
    by (simp add: finish_Copied rest_copy_def warned_def put_file_same)
next
  case (Some ke)
  obtain k e where ke: "ke = (k, e)" by (cases ke)
  with Some have l: "copy_limit E (Join E v (GetName a)) body = min k (length body)"
    by (simp add: copy_limit_def)
  have t: "take (min k (length body)) body = take k body"
    by (simp add: min_def)
  have "finish_task E d (InLoop owner repo v f (a # as) (Copying body (min k (length body)))) (w, ch) =
      finish_task E d (InLoop owner repo v f (a # as)
        (Failed (WriteFailed (Join E v (GetName a)) e))) (w, ch)"
    by (rule finish_task_step) (simp_all add: l Some ke)
  with assms l Some ke t show ?thesis
    by (simp add: finish_Failed rest_copy_def warned_def put_file_same)
qed

lemma finish_Copying_start:
  assumes "nodes w (Join E v (GetName a)) = Some (File [])"
  shows "finish_task E d (InLoop owner repo v f (a # as) (Copying body 0)) (w, ch) =
     finish_task E d (InLoop owner repo v f as Top)
       (rest_copy E owner repo a (Join E v (GetName a)) body w, ch)"
proof (cases "0 < copy_limit E (Join E v (GetName a)) body")
  case False
  then have z: "copy_limit E (Join E v (GetName a)) body = 0" by simp
  from finish_Copying_end[of w E v a body d owner repo f as ch] assms z show ?thesis
    by simp
next
  case True
  let ?p = "Join E v (GetName a)"
  let ?l = "copy_limit E ?p body"
  have le: "?l \<le> length body" by (rule copy_limit_le)
  have piece: "take (min (Suc (length body)) ?l) body = take ?l body"
    using le by (simp add: min_def)
  have "finish_task E d (InLoop owner repo v f (a # as) (Copying body 0)) (w, ch) =
      finish_task E d (InLoop owner repo v f (a # as) (Copying body ?l))
        (put_file w ?p (take ?l body), ch)"
    by (rule finish_task_step)
       (insert True le assms,
        simp_all add: piece_left_def Let_def piece file_at_def write_at_def min_def)
  also have "\<dots> = finish_task E d (InLoop owner repo v f as Top)
       (rest_copy E owner repo a ?p body (put_file w ?p (take ?l body)), ch)"
    by (rule finish_Copying_end) (simp add: put_file_def)
  also have "rest_copy E owner repo a ?p body (put_file w ?p (take ?l body))
      = rest_copy E owner repo a ?p body w"
    by (simp add: rest_copy_def warned_def put_file_def recorded_def split: option.splits)
  finally show ?thesis .
qed

lemma assetStep_rest:
  "assetStep E d owner repo v f a w =
     (if matchFilter d \<noteq> [] \<and> \<not> strings_Contains (GetName a) (matchFilter d)
      then w\<lparr>stdout := stdout w @ [Skipping (GetName a) (matchFilter d)]\<rparr>
      else if GetURL a = [] then warned w owner repo a (NoApiURL (GetName a))
      else if \<not> f \<and> Stat_ok w (Join E v (GetName a))
      then recorded w (AlreadyExists (Join E v (GetName a))) (Join E v (GetName a))
      else rest_create E d owner repo a (Join E v (GetName a)) w)"
  by (simp add: assetStep_def downloadAsset_def rest_create_def rest_redirect_def rest_fetch_def
      rest_copy_def warned_def Let_def split: option.splits sum.splits)

lemma sent_nodes [simp]: "nodes (sent w r) = nodes w"
  by (simp add: sent_def)

lemma finish_ToFetch:
  assumes "nodes w (Join E v (GetName a)) = Some (File [])"
  shows "finish_task E d (InLoop owner repo v f (a # as) (ToFetch loc)) (w, ch) =
     finish_task E d (InLoop owner repo v f as Top)
       (rest_fetch E owner repo a (Join E v (GetName a)) loc w, ch)"
proof -
  let ?w3 = "sent w (second_request loc)"
  have "\<exists>q. asset_step E d 0 owner repo v f a (ToFetch loc) w = (?w3, Some q)"
    by (auto simp: Let_def split: sum.splits)
  then obtain q where q: "asset_step E d 0 owner repo v f a (ToFetch loc) w = (?w3, Some q)" ..
  then have s: "finish_task E d (InLoop owner repo v f (a # as) (ToFetch loc)) (w, ch) =
      finish_task E d (InLoop owner repo v f (a # as) q) (?w3, ch)"
    by (intro finish_task_step) (simp_all add: piece_left_def)
  from assms have n: "nodes ?w3 (Join E v (GetName a)) = Some (File [])" by simp
  from q show ?thesis
    unfolding s
    by (auto simp: rest_fetch_def Let_def finish_Failed finish_Copying_start[OF n]
        split: sum.splits if_splits)
qed

lemma finish_ToRedirect:
  assumes "nodes w (Join E v (GetName a)) = Some (File [])"
  shows "finish_task E d (InLoop owner repo v f (a # as) ToRedirect) (w, ch) =
     finish_task E d (InLoop owner repo v f as Top)
       (rest_redirect E d owner repo a (Join E v (GetName a)) w, ch)"
proof -
  let ?w2 = "sent w (first_request d (GetURL a))"
  have "\<exists>q. asset_step E d 0 owner repo v f a ToRedirect w = (?w2, Some q)"
    by (auto simp: Let_def split: sum.splits option.splits)
  then obtain q where q: "asset_step E d 0 owner repo v f a ToRedirect w = (?w2, Some q)" ..
  then have s: "finish_task E d (InLoop owner repo v f (a # as) ToRedirect) (w, ch) =
      finish_task E d (InLoop owner repo v f (a # as) q) (?w2, ch)"
    by (intro finish_task_step) (simp_all add: piece_left_def)
  from assms have n: "nodes ?w2 (Join E v (GetName a)) = Some (File [])" by simp
  from q show ?thesis
    unfolding s
    by (auto simp: rest_redirect_def Let_def finish_Failed finish_ToFetch[OF n]
        split: sum.splits if_splits option.splits)
qed

lemma finish_ToCreate:
  "finish_task E d (InLoop owner repo v f (a # as) ToCreate) (w, ch) =
   finish_task E d (InLoop owner repo v f as Top)
     (rest_create E d owner repo a (Join E v (GetName a)) w, ch)"
proof (cases "Create E (Join E v (GetName a))")
  case (Some e)
  then have "finish_task E d (InLoop owner repo v f (a # as) ToCreate) (w, ch) =
      finish_task E d (InLoop owner repo v f (a # as) (Failed (CreateFailed (Join E v (GetName a)) e)))
        (w, ch)"
    by (intro finish_task_step) (simp_all add: piece_left_def)
  with Some show ?thesis
    by (simp add: finish_Failed rest_create_def)
next
  case None
  let ?w1 = "put_file w (Join E v (GetName a)) []"
  have n: "nodes ?w1 (Join E v (GetName a)) = Some (File [])"
    by (simp add: put_file_def)
  show ?thesis
  proof (cases "NewRequest E (GetURL a)")
    case (Some e)
    with None have "finish_task E d (InLoop owner repo v f (a # as) ToCreate) (w, ch) =
        finish_task E d (InLoop owner repo v f (a # as) (Failed (RequestFailed e))) (?w1, ch)"
      by (intro finish_task_step) (simp_all add: piece_left_def)
    with None Some show ?thesis
      by (simp add: finish_Failed rest_create_def)
  next
    case ok: None
    with None have "finish_task E d (InLoop owner repo v f (a # as) ToCreate) (w, ch) =
        finish_task E d (InLoop owner repo v f (a # as) ToRedirect) (?w1, ch)"
      by (intro finish_task_step) (simp_all add: piece_left_def)
    with None ok show ?thesis
      by (simp add: finish_ToRedirect[OF n] rest_create_def)
  qed
qed

lemma finish_Top:
  "finish_task E d (InLoop owner repo v f (a # as) Top) (w, ch) =
   finish_task E d (InLoop owner repo v f as Top) (assetStep E d owner repo v f a w, ch)"
proof -
  obtain w1 q where q: "asset_step E d 0 owner repo v f a Top w = (w1, q)"
    by (cases "asset_step E d 0 owner repo v f a Top w") auto
  show ?thesis
  proof (cases q)
    case None
    with q have "finish_task E d (InLoop owner repo v f (a # as) Top) (w, ch) =
        finish_task E d (InLoop owner repo v f as Top) (w1, ch)"
      by (intro finish_task_step) (simp_all add: piece_left_def)
    with q None show ?thesis
      by (auto simp: assetStep_rest split: if_splits)
  next
    case (Some p)
    with q have "finish_task E d (InLoop owner repo v f (a # as) Top) (w, ch) =
        finish_task E d (InLoop owner repo v f (a # as) p) (w1, ch)"
      by (intro finish_task_step) (simp_all add: piece_left_def)
    with q Some show ?thesis
      by (auto simp: assetStep_rest finish_Failed finish_Found finish_ToCreate split: if_splits)
  qed
qed

lemma finish_InLoop:
  "finish_task E d (InLoop owner repo v f as Top) (w, ch) =
     (downloadAssets E d owner repo v f as w, ch)"
proof (induction as arbitrary: w)
  case Nil
  have "finish_task E d (InLoop owner repo v f [] Top) (w, ch) = finish_task E d Finished (w, ch)"
    by (intro finish_task_step) simp_all
  then show ?case by simp
next
  case (Cons a as)
  then show ?case by (simp add: finish_Top)
qed

lemma finish_Failing:
  "finish_task E d (Failing owner repo e) (w, ch) = (w, ch @ [FailedDownload owner repo e])"
proof -
  have "finish_task E d (Failing owner repo e) (w, ch) =
      finish_task E d Finished (w, ch @ [FailedDownload owner repo e])"
    by (intro finish_task_step) simp_all
  then show ?thesis by simp
qed

lemma finish_Resolved:
  "finish_task E d (Resolved owner repo v f as) (w, ch) =
     (case MkdirAll E v of
        Some e \<Rightarrow> (w, ch @ [FailedDownload owner repo (VersionDirFailed v e)])
      | None \<Rightarrow> (downloadAssets E d owner repo v f as (made_dir w v), ch))"
proof (cases "MkdirAll E v")
  case None
  then have "finish_task E d (Resolved owner repo v f as) (w, ch) =
      finish_task E d (InLoop owner repo v f as Top) (made_dir w v, ch)"
    by (intro finish_task_step) simp_all
  with None show ?thesis by (simp add: finish_InLoop)
next
  case (Some e)
  then have "finish_task E d (Resolved owner repo v f as) (w, ch) =
      finish_task E d (Failing owner repo (VersionDirFailed v e)) (w, ch)"
    by (intro finish_task_step) simp_all
  with Some show ?thesis by (simp add: finish_Failing)
qed

text \<open>A goroutine that runs alone does what the body of the \<open>go func\<close> does.\<close>

lemma finish_Spawned:
  "finish_task E d (Spawned owner repo) (w, ch) =
     (case downloadLatestRelease E d owner repo w of
        (Some err, w') \<Rightarrow> (w', ch @ [FailedDownload owner repo err])
      | (None, w') \<Rightarrow> (w', ch))"
proof (cases "acceptRelease E d owner repo")
  case (Inl e)
  then have "finish_task E d (Spawned owner repo) (w, ch) =
      finish_task E d (Failing owner repo e) (w, ch)"
    by (intro finish_task_step) simp_all
  with Inl show ?thesis
    by (simp add: finish_Failing downloadLatestRelease_def resolveRelease_accept)
next
  case (Inr x)
  obtain v f as where x: "x = (v, f, as)" by (cases x)
  with Inr have "finish_task E d (Spawned owner repo) (w, ch) =
      finish_task E d (Resolved owner repo v f as) (w, ch)"
    by (intro finish_task_step) simp_all
  with Inr x show ?thesis
    by (simp add: finish_Resolved downloadLatestRelease_def resolveRelease_accept
        split: option.splits)
qed

subsection \<open>Schedules\<close>

text \<open>
  A quantity of the state, and what each goroutine is still to add to it: when every
  step of a goroutine keeps (or does not lower) their sum, so does a whole run under
  any schedule, the wait included.
\<close>

lemma run_sched_potential:
  fixes val :: "world \<times> error list \<Rightarrow> 'a::comm_monoid_add"
  assumes trans: "\<And>x y z. le x y \<Longrightarrow> le y z \<Longrightarrow> le x z"
    and mono: "\<And>x y z. le x y \<Longrightarrow> le (x + z) (y + z)"
    and step: "\<And>n t c c' t'. task_step E d n t c = (c', t') \<Longrightarrow> le (val c + pot t) (val c' + pot t')"
    and refl: "\<And>x. le x x"
  shows "le (val c + sum_list (map pot ts))
            (val (fst (run_sched E d sched (c, ts)))
               + sum_list (map pot (snd (run_sched E d sched (c, ts)))))"
proof (induction sched arbitrary: c ts)
  case Nil
  show ?case by (simp add: refl)
next
  case (Cons m sched)
  obtain i n where m: "m = (i, n)" by (cases m)
  show ?case
  proof (cases "i < length ts")
    case False
    then show ?thesis using Cons.IH[of c ts] by (simp add: m)
  next
    case True
    obtain c1 t1 where s: "task_step E d n (ts ! i) c = (c1, t1)"
      by (cases "task_step E d n (ts ! i) c") auto
    let ?A = "sum_list (map pot (take i ts))" and ?B = "sum_list (map pot (drop (Suc i) ts))"
    have before: "sum_list (map pot ts) = ?A + pot (ts ! i) + ?B"
      using True by (subst id_take_nth_drop[OF True]) (simp add: add.assoc)
    have after: "sum_list (map pot (ts[i := t1])) = ?A + pot t1 + ?B"
      using True by (simp add: upd_conv_take_nth_drop add.assoc)
    have "le (val c + pot (ts ! i) + (?A + ?B)) (val c1 + pot t1 + (?A + ?B))"
      by (rule mono[OF step[OF s]])
    moreover have "val c + pot (ts ! i) + (?A + ?B) = val c + sum_list (map pot ts)"
      by (simp add: before ac_simps)
    moreover have "val c1 + pot t1 + (?A + ?B) = val c1 + sum_list (map pot (ts[i := t1]))"
      by (simp add: after ac_simps)
    ultimately have "le (val c + sum_list (map pot ts))
        (val c1 + sum_list (map pot (ts[i := t1])))"
      by simp
    from trans[OF this Cons.IH[of c1 "ts[i := t1]"]] show ?thesis
      using True s by (simp add: m)
  qed
qed

lemma finish_task_potential:
  fixes val :: "world \<times> error list \<Rightarrow> 'a::comm_monoid_add"
  assumes trans: "\<And>x y z. le x y \<Longrightarrow> le y z \<Longrightarrow> le x z"
    and step: "\<And>E d n t c c' t'.
      task_step E d n t c = (c', t') \<Longrightarrow> le (val c + pot E d t) (val c' + pot E d t')"
    and refl: "\<And>x. le x x"
    and fin: "\<And>E d. pot E d Finished = 0"
  shows "le (val c + pot E d t) (val (finish_task E d t c))"
proof (induction E d t c rule: finish_task.induct)
  case (1 E d t c)
  show ?case
  proof (cases "t = Finished")
    case True
    then show ?thesis by (simp add: fin refl)
  next
    case False
    obtain c1 t1 where s: "task_step E d (piece_left t) t c = (c1, t1)"
      by (cases "task_step E d (piece_left t) t c") auto
    have "le (val c + pot E d t) (val c1 + pot E d t1)"
      by (rule step[OF s])
    moreover have "le (val c1 + pot E d t1) (val (finish_task E d t1 c1))"
      using "1.IH"[OF False s[symmetric]] by simp
    ultimately have "le (val c + pot E d t) (val (finish_task E d t1 c1))"
      by (rule trans)
    then show ?thesis
      using finish_task_step[OF False s] by simp
  qed
qed

lemma Wait_potential:
  fixes val :: "world \<times> error list \<Rightarrow> 'a::comm_monoid_add"
  assumes trans: "\<And>x y z. le x y \<Longrightarrow> le y z \<Longrightarrow> le x z"
    and mono: "\<And>x y z. le x y \<Longrightarrow> le (x + z) (y + z)"
    and step: "\<And>E d n t c c' t'.
      task_step E d n t c = (c', t') \<Longrightarrow> le (val c + pot E d t) (val c' + pot E d t')"
    and refl: "\<And>x. le x x"
    and fin: "\<And>E d. pot E d Finished = 0"
  shows "le (val c + sum_list (map (pot E d) ts)) (val (Wait E d ts c))"
proof (induction ts arbitrary: c)
  case Nil
  show ?case by (simp add: refl)
next
  case (Cons t ts)
  have "le (val c + pot E d t) (val (finish_task E d t c))"
    by (rule finish_task_potential[of le val pot, OF trans step refl fin])
  then have "le (val c + pot E d t + sum_list (map (pot E d) ts))
      (val (finish_task E d t c) + sum_list (map (pot E d) ts))"
    by (rule mono)
  from trans[OF this Cons.IH[of "finish_task E d t c"]] show ?case
    by (simp add: add.assoc)
qed

text \<open>The whole run: the schedule, then the wait.\<close>

lemma run_potential:
  fixes val :: "world \<times> error list \<Rightarrow> 'a::comm_monoid_add"
  assumes trans: "\<And>x y z. le x y \<Longrightarrow> le y z \<Longrightarrow> le x z"
    and mono: "\<And>x y z. le x y \<Longrightarrow> le (x + z) (y + z)"
    and step: "\<And>E d n t c c' t'.
      task_step E d n t c = (c', t') \<Longrightarrow> le (val c + pot E d t) (val c' + pot E d t')"
    and refl: "\<And>x. le x x"
    and fin: "\<And>E d. pot E d Finished = 0"
    and run: "run_sched E d sched (c, ts) = (c1, ts1)"
  shows "le (val c + sum_list (map (pot E d) ts)) (val (Wait E d ts1 c1))"
proof -
  have "le (val c + sum_list (map (pot E d) ts)) (val c1 + sum_list (map (pot E d) ts1))"
    using run_sched_potential[of le E d val "pot E d" c ts sched, OF trans mono step refl] run
    by simp
  moreover have "le (val c1 + sum_list (map (pot E d) ts1)) (val (Wait E d ts1 c1))"
    by (rule Wait_potential[of le val pot, OF trans mono step refl fin])
  ultimately show ?thesis by (rule trans)
qed

lemma plan_of_accept:
  "plan_of E d owner repo =
     (case acceptRelease E d owner repo of
        Inl e \<Rightarrow> Inl e
      | Inr (v, f, as) \<Rightarrow>
          (case MkdirAll E v of
             Some e \<Rightarrow> Inl (VersionDirFailed v e)
           | None \<Rightarrow> Inr (v, f, as)))"
  by (simp add: plan_of_def resolveRelease_accept split: sum.splits option.splits)

lemma made_dir_fields [simp]:
  "stdout (made_dir w p) = stdout w" "binPaths (made_dir w p) = binPaths w"
  "requests (made_dir w p) = requests w"
  by (simp_all add: made_dir_def split: option.splits)

lemma task_lines_Top: "task_lines E d (InLoop owner repo v f as Top) = length as"
  by (cases as) simp_all

lemma task_paths_Top: "task_paths E d (InLoop owner repo v f as Top) = sure_paths E d v as"
  by (cases as) (simp_all add: sure_paths_def)

lemma asset_step_lines:
  assumes "asset_step E d n owner repo v f a p w = (w', q)"
  shows "length (stdout w) + (if p = ToAppend then 0 else 1) =
     length (stdout w') + (case q of None \<Rightarrow> 0 | Some p' \<Rightarrow> if p' = ToAppend then 0 else 1)"
  using assms
  by (cases p)
     (auto simp: Let_def put_file_def sent_def split: if_splits option.splits sum.splits)

lemma task_step_lines:
  "task_step E d n t c = (c', t') \<Longrightarrow>
   length (stdout (fst c)) + task_lines E d t = length (stdout (fst c')) + task_lines E d t'"
proof (induction E d n t c rule: task_step.induct)
  case (4 E d n owner repo v f a as p w ch)
  obtain w1 q where s: "asset_step E d n owner repo v f a p w = (w1, q)"
    by (cases "asset_step E d n owner repo v f a p w") auto
  from asset_step_lines[OF s] s 4 show ?case
    by (cases q) (auto simp: task_lines_Top split: if_splits)
qed (auto simp: plan_of_accept task_lines_Top split: sum.splits option.splits)

lemma task_step_errs:
  "task_step E d n t c = (c', t') \<Longrightarrow>
   mset (snd c) + mset (task_errs E d t) = mset (snd c') + mset (task_errs E d t')"
proof (induction E d n t c rule: task_step.induct)
  case (4 E d n owner repo v f a as p w ch)
  then show ?case
    by (cases "asset_step E d n owner repo v f a p w") (auto split: option.splits)
qed (auto simp: plan_of_accept split: sum.splits option.splits)

lemma fetchable_iff:
  "fetchable E d (v, a) \<longleftrightarrow>
     GetURL a \<noteq> [] \<and> Create E (Join E v (GetName a)) = None \<and>
     NewRequest E (GetURL a) = None \<and> sure_redirect E d v a"
  by (auto simp: fetchable_def downloadAsset_def sure_redirect_def sure_fetch_def Let_def
      split: option.splits sum.splits if_splits)

lemma asset_step_paths:
  assumes "asset_step E d n owner repo v f a p w = (w', q)"
  shows "mset (binPaths w) + mset (if sure E d v a p then [Join E v (GetName a)] else [])
     \<subseteq># mset (binPaths w') +
         mset (case q of None \<Rightarrow> []
               | Some p' \<Rightarrow> if sure E d v a p' then [Join E v (GetName a)] else [])"
  using assms
  by (cases p)
     (auto simp: Let_def put_file_def sent_def fetchable_iff selected_def sure_redirect_def
        sure_fetch_def split: if_splits option.splits sum.splits)

lemma task_step_paths:
  "task_step E d n t c = (c', t') \<Longrightarrow>
   mset (binPaths (fst c)) + mset (task_paths E d t)
     \<subseteq># mset (binPaths (fst c')) + mset (task_paths E d t')"
proof (induction E d n t c rule: task_step.induct)
  case (4 E d n owner repo v f a as p w ch)
  obtain w1 q where s: "asset_step E d n owner repo v f a p w = (w1, q)"
    by (cases "asset_step E d n owner repo v f a p w") auto
  let ?S = "mset (sure_paths E d v as)"
  have m: "mset (binPaths w) + mset (if sure E d v a p then [Join E v (GetName a)] else []) + ?S
     \<subseteq># mset (binPaths w1) +
         mset (case q of None \<Rightarrow> []
               | Some p' \<Rightarrow> if sure E d v a p' then [Join E v (GetName a)] else []) + ?S"
    using asset_step_paths[OF s] by (rule subset_mset.add_right_mono)
  show ?case
  proof (cases q)
    case None
    with s 4 have "c' = (w1, ch)" "t' = InLoop owner repo v f as Top" by auto
    then show ?thesis using m None by (simp add: ac_simps task_paths_Top)
  next
    case (Some p')
    with s 4 have "c' = (w1, ch)" "t' = InLoop owner repo v f (a # as) p'" by auto
    then show ?thesis using m Some by (simp add: ac_simps)
  qed
qed (auto simp: plan_of_accept task_paths_Top split: sum.splits option.splits)

lemma spawn_loop_all:
  "map parseUserRepo us = map Inr repos \<Longrightarrow> spawn_loop us ts = (ts @ spawned repos, None)"
proof (induction us arbitrary: ts repos)
  case Nil
  then show ?case by (simp add: spawned_def)
next
  case (Cons u us)
  then obtain r rs where r: "repos = r # rs" "parseUserRepo u = Inr r"
      "map parseUserRepo us = map Inr rs"
    by (cases repos) auto
  obtain owner repo where p: "r = (owner, repo)" by (cases r)
  from Cons.IH[OF r(3), of "ts @ [Spawned owner repo]"] r p show ?case
    by (simp add: spawned_def)
qed

lemma spawn_loop_bad:
  "map parseUserRepo pre = map Inr repos \<Longrightarrow> parseUserRepo bad = Inl e \<Longrightarrow>
   spawn_loop (pre @ bad # post) ts = (ts @ spawned repos, Some (InvalidFormat bad e))"
proof (induction pre arbitrary: ts repos)
  case Nil
  then show ?case by (simp add: spawned_def)
next
  case (Cons u us)
  then obtain r rs where r: "repos = r # rs" "parseUserRepo u = Inr r"
      "map parseUserRepo us = map Inr rs"
    by (cases repos) auto
  obtain owner repo where p: "r = (owner, repo)" by (cases r)
  from Cons.IH[OF r(3) Cons.prems(2), of "ts @ [Spawned owner repo]"] r p show ?case
    by (simp add: spawned_def)
qed

lemma DownloadLatestReleases_waited:
  assumes "MkdirAll E (destDir d) = None" "map parseUserRepo userRepos = map Inr repos"
    and "run_sched E d sched ((made_dir w (destDir d), []), spawned repos) = (c1, ts1)"
  shows "DownloadLatestReleases E d sched userRepos w =
     ((binPaths (fst (Wait E d ts1 c1)),
       if snd (Wait E d ts1 c1) = [] then None
       else Some (ErrorsOccurred (map Error (snd (Wait E d ts1 c1))))),
      fst (Wait E d ts1 c1))"
  using assms spawn_loop_all[OF assms(2), of "[]"]
  by (simp add: DownloadLatestReleases_def Let_def split: prod.splits)

lemma sum_list_mset_concat: "sum_list (map (\<lambda>x. mset (f x)) xs) = mset (concat (map f xs))"
  by (induction xs) simp_all

lemma waited_errs:
  assumes "run_sched E d sched ((w0, []), ts) = (c1, ts1)"
  shows "mset (snd (Wait E d ts1 c1)) = mset (concat (map (task_errs E d) ts))"
proof -
  have "mset (snd (w0, []::error list)) + sum_list (map (\<lambda>t. mset (task_errs E d t)) ts)
      = mset (snd (Wait E d ts1 c1))"
  proof (rule run_potential[where le = "(=)" and val = "\<lambda>c. mset (snd c)"
          and pot = "\<lambda>E d t. mset (task_errs E d t)" and E = E and d = d, OF _ _ _ _ _ assms])
    show "mset (snd c) + mset (task_errs E d t) = mset (snd c') + mset (task_errs E d t')"
      if "task_step E d n t c = (c', t')" for E d n t c c' t'
      using that by (rule task_step_errs)
  qed auto
  then show ?thesis by (simp add: sum_list_mset_concat)
qed

lemma waited_lines:
  assumes "run_sched E d sched ((w0, []), ts) = (c1, ts1)"
  shows "length (stdout (fst (Wait E d ts1 c1)))
     = length (stdout w0) + sum_list (map (task_lines E d) ts)"
proof -
  have "length (stdout (fst (w0, []::error list))) + sum_list (map (task_lines E d) ts)
      = length (stdout (fst (Wait E d ts1 c1)))"
  proof (rule run_potential[where le = "(=)" and val = "\<lambda>c. length (stdout (fst c))"
          and pot = task_lines and E = E and d = d, OF _ _ _ _ _ assms])
    show "length (stdout (fst c)) + task_lines E d t
        = length (stdout (fst c')) + task_lines E d t'"
      if "task_step E d n t c = (c', t')" for E d n t c c' t'
      using that by (rule task_step_lines)
  qed auto
  then show ?thesis by simp
qed

lemma waited_paths:
  assumes "run_sched E d sched ((w0, []), ts) = (c1, ts1)"
  shows "mset (binPaths w0) + mset (concat (map (task_paths E d) ts))
     \<subseteq># mset (binPaths (fst (Wait E d ts1 c1)))"
proof -
  have "mset (binPaths (fst (w0, []::error list))) + sum_list (map (\<lambda>t. mset (task_paths E d t)) ts)
      \<subseteq># mset (binPaths (fst (Wait E d ts1 c1)))"
  proof (rule run_potential[where le = "(\<subseteq>#)" and val = "\<lambda>c. mset (binPaths (fst c))"
          and pot = "\<lambda>E d t. mset (task_paths E d t)" and E = E and d = d, OF _ _ _ _ _ assms])
    show "mset (binPaths (fst c)) + mset (task_paths E d t)
        \<subseteq># mset (binPaths (fst c')) + mset (task_paths E d t')"
      if "task_step E d n t c = (c', t')" for E d n t c c' t'
      using that by (rule task_step_paths)
  qed (auto intro: subset_mset.add_right_mono)
  then show ?thesis by (simp add: sum_list_mset_concat)
qed

lemma task_errs_spawned:
  "concat (map (task_errs E d) (spawned repos)) =
   concat (map (\<lambda>(owner, repo).
      case fst (downloadLatestRelease E d owner repo w) of
        Some e \<Rightarrow> [FailedDownload owner repo e]
      | None \<Rightarrow> []) repos)"
  by (induction repos)
     (auto simp: spawned_def downloadLatestRelease_plan split: sum.splits)

lemma task_lines_spawned:
  "sum_list (map (task_lines E d) (spawned repos)) =
   sum_list (map (\<lambda>(owner, repo).
      case resolveRelease E d owner repo w of
        Inl e \<Rightarrow> 0
      | Inr (v, f, as, w1) \<Rightarrow> length as) repos)"
  by (induction repos)
     (auto simp: spawned_def resolveRelease_plan split: sum.splits)

lemma task_paths_spawned:
  assumes "(owner, repo) \<in> set repos" "resolveRelease E d owner repo w = Inr (v, f, as, w1)"
    "a \<in> set as" "selected d a" "fetchable E d (v, a)"
  shows "Join E v (GetName a) \<in> set (concat (map (task_paths E d) (spawned repos)))"
proof -
  from assms(2) have "plan_of E d owner repo = Inr (v, f, as)"
    by (auto simp: resolveRelease_plan split: sum.splits)
  with assms(3-5) have "Join E v (GetName a) \<in> set (task_paths E d (Spawned owner repo))"
    by (force simp: sure_paths_def)
  moreover from assms(1) have "Spawned owner repo \<in> set (spawned repos)"
    by (force simp: spawned_def)
  ultimately have "\<exists>t\<in>set (spawned repos). Join E v (GetName a) \<in> set (task_paths E d t)"
    by (rule rev_bexI[rotated])
  then show ?thesis by simp
qed

text \<open>
  What a run that reaches the wait returns, under every schedule: the errors sent, in
  some order, are the failures of the repositories; the paths hold those that are sure.
\<close>

lemma DownloadLatestReleases_aggregate:
  assumes "MkdirAll E (destDir d) = None" "map parseUserRepo userRepos = map Inr repos"
  shows "\<exists>ch. mset ch = mset (concat (map (\<lambda>(owner, repo).
            case fst (downloadLatestRelease E d owner repo w) of
              Some e \<Rightarrow> [FailedDownload owner repo e]
            | None \<Rightarrow> []) repos)) \<and>
     fst (DownloadLatestReleases E d sched userRepos w) =
       (binPaths (snd (DownloadLatestReleases E d sched userRepos w)),
        if ch = [] then None else Some (ErrorsOccurred (map Error ch))) \<and>
     mset (binPaths w) + mset (concat (map (task_paths E d) (spawned repos)))
       \<subseteq># mset (binPaths (snd (DownloadLatestReleases E d sched userRepos w))) \<and>
     length (stdout (snd (DownloadLatestReleases E d sched userRepos w))) =
       length (stdout w) + sum_list (map (task_lines E d) (spawned repos))"
proof -
  obtain c1 ts1 where
    run: "run_sched E d sched ((made_dir w (destDir d), []), spawned repos) = (c1, ts1)"
    by (cases "run_sched E d sched ((made_dir w (destDir d), []), spawned repos)") auto
  note r = DownloadLatestReleases_waited[OF assms run]
  show ?thesis
    using waited_errs[OF run] waited_paths[OF run] waited_lines[OF run]
      task_errs_spawned[of E d repos w]
    by (intro exI[of _ "snd (Wait E d ts1 c1)"]) (simp add: r)
qed

subsection \<open>DownloadLatestReleases\<close>

lemma strings_Join_holds:
  "x \<in> set xs \<Longrightarrow> \<exists>pre post. strings_Join xs sep = pre @ x @ post"
proof (induction xs sep rule: strings_Join.induct)
  case (1 sep)
  then show ?case by simp
next
  case (2 y sep)
  then have "strings_Join [y] sep = [] @ x @ []" by simp
  then show ?case by blast
next
  case (3 y z zs sep)
  show ?case
  proof (cases "x = y")
    case True
    then have "strings_Join (y # z # zs) sep = [] @ x @ (sep @ strings_Join (z # zs) sep)"
      by simp
    then show ?thesis by blast
  next
    case False
    with 3 obtain pre post where "strings_Join (z # zs) sep = pre @ x @ post" by auto
    then have "strings_Join (y # z # zs) sep = (y @ sep @ pre) @ x @ post" by simp
    then show ?thesis by blast
  qed
qed

lemma strings_Split_append:
  "c \<notin> set a \<Longrightarrow> strings_Split (a @ c # b) c = a # strings_Split b c"
  by (induction a) (auto split: list.splits simp: strings_Split_not_Nil)

lemma strings_Split_Join:
  "xs \<noteq> [] \<Longrightarrow> \<forall>x\<in>set xs. c \<notin> set x \<Longrightarrow> strings_Split (strings_Join xs [c]) c = xs"
proof (induction xs "[c]" rule: strings_Join.induct)
  case 1
  then show ?case by simp
next
  case (2 x)
  then show ?case by (simp add: strings_Split_single)
next
  case (3 x y ys)
  then show ?case by (simp add: strings_Split_append)
qed

lemma ex_parse3:
  "map parseUserRepo [''octo/tool'', ''octo/draft'', ''octo/next'']
     = map Inr [(''octo'', ''tool''), (''octo'', ''draft''), (''octo'', ''next'')]"
  by (simp add: parseUserRepo_def)

lemma ex_resolve:
  "resolveRelease ex_env ex_downloader owner ''tool'' ex_world
     = Inr (''out/tool-v1'', False, [ex_asset], made_dir ex_world ''out/tool-v1'')"
  "resolveRelease ex_env ex_downloader owner ''next'' ex_world
     = Inr (''out/next-latest'', True, [ex_asset], made_dir ex_world ''out/next-latest'')"
  "resolveRelease ex_env ex_downloader owner ''draft'' ex_world = Inl DraftOrPrerelease"
  "resolveRelease ex_env ex_downloader owner ''repo'' ex_world = Inl (FetchFailed ''404 Not Found'')"
  by (simp_all add: resolveRelease_def Let_def ex_release_def ex_env_def ex_downloader_def
      GetDraft_def GetPrerelease_def GetTagName_def)

lemma ex_failures3:
  "[FailedDownload ''octo'' ''draft'' DraftOrPrerelease] =
   concat (map (\<lambda>(owner, repo).
      case fst (downloadLatestRelease ex_env ex_downloader owner repo ex_world) of
        Some e \<Rightarrow> [FailedDownload owner repo e]
      | None \<Rightarrow> [])
     [(''octo'', ''tool''), (''octo'', ''draft''), (''octo'', ''next'')])"
  by (simp add: downloadLatestRelease_def ex_resolve)

lemma ex_fetchable:
  "fetchable ex_env ex_downloader (v, ex_asset)" "selected ex_downloader ex_asset"
  by (simp_all add: fetchable_def selected_def downloadAsset_def Let_def ex_defs acc_defs)

lemma mset_single_list: "mset xs = {#x#} \<Longrightarrow> xs = [x]"
  by (simp add: mset_single_iff_right)

text \<open>
  C1. When the destination directory is made and every identifier parses, under every
  schedule of the steps of the goroutines: \<open>DownloadLatestReleases\<close> returns
  \<open>binPaths\<close> as the goroutines left it, with or without an error; the error is nil
  exactly when \<open>downloadLatestRelease\<close> fails for no repository; otherwise it is the one
  combined error, whose message is "errors occurred:" and, joined by newlines, the
  messages of all the failures (in the order the goroutines sent them): the message of
  every failure is part of it, and where no message has a newline in it, its lines
  after the first are the messages. When exactly one repository fails, the message is
  "errors occurred:" and the message of that repository alone, and the paths returned
  hold the path of every asset of a repository that resolves, when the filter selects
  the asset and the calls of its download succeed.
\<close>

theorem C1_errors_aggregated:
  assumes "MkdirAll E (destDir d) = None"
    and "map parseUserRepo userRepos = map Inr repos"
    and "failures = concat (map (\<lambda>(owner, repo).
            case fst (downloadLatestRelease E d owner repo w) of
              Some e \<Rightarrow> [FailedDownload owner repo e]
            | None \<Rightarrow> []) repos)"
    and "DownloadLatestReleases E d sched userRepos w = ((paths, err), w')"
  shows "paths = binPaths w' \<and>
     (err = None \<longleftrightarrow> failures = []) \<and>
     (failures \<noteq> [] \<longrightarrow>
        (\<exists>errs. err = Some (ErrorsOccurred errs) \<and> mset errs = mset (map Error failures) \<and>
           Error (ErrorsOccurred errs)
             = ''errors occurred:'' @ [CHR 0x0A] @ strings_Join errs [CHR 0x0A] \<and>
           (\<forall>f\<in>set failures. \<exists>pre post. Error (ErrorsOccurred errs) = pre @ Error f @ post) \<and>
           ((\<forall>m\<in>set errs. CHR 0x0A \<notin> set m) \<longrightarrow>
              strings_Split (strings_Join errs [CHR 0x0A]) (CHR 0x0A) = errs))) \<and>
     (\<forall>owner repo e. failures = [FailedDownload owner repo e] \<longrightarrow>
        err = Some (ErrorsOccurred
                [''failed to download '' @ owner @ ''/'' @ repo @ '': '' @ Error e]) \<and>
        (\<forall>x. err = Some x \<longrightarrow>
           Error x = ''errors occurred:'' @ [CHR 0x0A] @
                     ''failed to download '' @ owner @ ''/'' @ repo @ '': '' @ Error e)) \<and>
     (\<forall>owner repo v f as w1 a.
        (owner, repo) \<in> set repos \<and> resolveRelease E d owner repo w = Inr (v, f, as, w1) \<and>
        a \<in> set as \<and> selected d a \<and> fetchable E d (v, a) \<longrightarrow>
        Join E v (GetName a) \<in> set paths)"
proof -
  from DownloadLatestReleases_aggregate[OF assms(1,2), of w sched] assms(3,4)
  obtain ch where ch: "mset ch = mset failures"
    and res: "(paths, err) = (binPaths w', if ch = [] then None else Some (ErrorsOccurred (map Error ch)))"
    and sub: "mset (binPaths w) + mset (concat (map (task_paths E d) (spawned repos)))
       \<subseteq># mset (binPaths w')"
    by auto
  from res have paths: "paths = binPaths w'"
    and err: "err = (if ch = [] then None else Some (ErrorsOccurred (map Error ch)))"
    by simp_all
  have none: "err = None \<longleftrightarrow> failures = []"
  proof -
    have "ch = [] \<longleftrightarrow> failures = []"
      using ch by (metis mset_zero_iff)
    then show ?thesis by (simp add: err)
  qed
  have some: "\<exists>errs. err = Some (ErrorsOccurred errs) \<and> mset errs = mset (map Error failures) \<and>
           Error (ErrorsOccurred errs)
             = ''errors occurred:'' @ [CHR 0x0A] @ strings_Join errs [CHR 0x0A] \<and>
           (\<forall>f\<in>set failures. \<exists>pre post. Error (ErrorsOccurred errs) = pre @ Error f @ post) \<and>
           ((\<forall>m\<in>set errs. CHR 0x0A \<notin> set m) \<longrightarrow>
              strings_Split (strings_Join errs [CHR 0x0A]) (CHR 0x0A) = errs)"
    if "failures \<noteq> []"
  proof -
    let ?errs = "map Error ch"
    from that none have ne: "ch \<noteq> []" by (simp add: err split: if_splits)
    then have e: "err = Some (ErrorsOccurred ?errs)" by (simp add: err)
    have m: "mset ?errs = mset (map Error failures)"
      using ch by (metis mset_map)
    have part: "\<exists>pre post. Error (ErrorsOccurred ?errs) = pre @ Error f @ post"
      if "f \<in> set failures" for f
    proof -
      from that ch have "f \<in> set ch" by (metis set_mset_mset)
      then have "Error f \<in> set ?errs" by simp
      from strings_Join_holds[OF this, of "[CHR 0x0A]"]
      obtain pre post where "strings_Join ?errs [CHR 0x0A] = pre @ Error f @ post" by blast
      then have "Error (ErrorsOccurred ?errs)
          = (''errors occurred:'' @ [CHR 0x0A] @ pre) @ Error f @ post"
        by simp
      then show ?thesis by blast
    qed
    have lines: "strings_Split (strings_Join ?errs [CHR 0x0A]) (CHR 0x0A) = ?errs"
      if "\<forall>m\<in>set ?errs. CHR 0x0A \<notin> set m"
      using strings_Split_Join[of ?errs "CHR 0x0A"] ne that by simp
    from e m part lines show ?thesis by auto
  qed
  have one: "err = Some (ErrorsOccurred
                [''failed to download '' @ owner @ ''/'' @ repo @ '': '' @ Error e]) \<and>
        (\<forall>x. err = Some x \<longrightarrow>
           Error x = ''errors occurred:'' @ [CHR 0x0A] @
                     ''failed to download '' @ owner @ ''/'' @ repo @ '': '' @ Error e)"
    if "failures = [FailedDownload owner repo e]" for owner repo e
  proof -
    from that ch have "mset ch = {#FailedDownload owner repo e#}" by simp
    then have "ch = [FailedDownload owner repo e]" by (rule mset_single_list)
    then show ?thesis by (simp add: err)
  qed
  have sure: "Join E v (GetName a) \<in> set paths"
    if "(owner, repo) \<in> set repos" "resolveRelease E d owner repo w = Inr (v, f, as, w1)"
      "a \<in> set as" "selected d a" "fetchable E d (v, a)" for owner repo v f as w1 a
  proof -
    have "Join E v (GetName a) \<in># mset (concat (map (task_paths E d) (spawned repos)))"
      using task_paths_spawned[OF that] by simp
    then have "Join E v (GetName a) \<in>#
        mset (binPaths w) + mset (concat (map (task_paths E d) (spawned repos)))"
      by simp
    with sub have "Join E v (GetName a) \<in># mset (binPaths w')"
      by (rule mset_subset_eqD)
    then show ?thesis by (simp add: paths)
  qed
  from paths none some one sure show ?thesis by blast
qed

text \<open>
  Two goroutines for one version directory (\<open>octo/tool\<close> and \<open>fork/tool\<close>), under
  three schedules. When both call \<open>os.Stat\<close> before either creates the file, both
  download, with four requests. When the second calls \<open>os.Stat\<close> after the first has
  created the file and before it has fetched it, the second reports the file as there
  before the first reports its download. When the first runs to its end before the
  second starts, the first downloads and the second then finds the file.
\<close>

lemma ex_both_download:
  "stdout (snd (DownloadLatestReleases ex_env ex_downloader ex_sched_both
      [''octo/tool'', ''fork/tool''] ex_world))
     = [Downloaded ''tool.tar.gz'' ''out/tool-v1/tool.tar.gz'',
        Downloaded ''tool.tar.gz'' ''out/tool-v1/tool.tar.gz''] \<and>
   length (requests (snd (DownloadLatestReleases ex_env ex_downloader ex_sched_both
      [''octo/tool'', ''fork/tool''] ex_world))) = 4"
  by code_simp

lemma ex_found_first:
  "stdout (snd (DownloadLatestReleases ex_env ex_downloader ex_sched_found
      [''octo/tool'', ''fork/tool''] ex_world))
     = [AlreadyExists ''out/tool-v1/tool.tar.gz'',
        Downloaded ''tool.tar.gz'' ''out/tool-v1/tool.tar.gz''] \<and>
   length (requests (snd (DownloadLatestReleases ex_env ex_downloader ex_sched_found
      [''octo/tool'', ''fork/tool''] ex_world))) = 2"
  by code_simp

lemma ex_one_after_the_other:
  "stdout (snd (DownloadLatestReleases ex_env ex_downloader []
      [''octo/tool'', ''fork/tool''] ex_world))
     = [Downloaded ''tool.tar.gz'' ''out/tool-v1/tool.tar.gz'',
        AlreadyExists ''out/tool-v1/tool.tar.gz''] \<and>
   length (requests (snd (DownloadLatestReleases ex_env ex_downloader []
      [''octo/tool'', ''fork/tool''] ex_world))) = 2"
  by code_simp

lemma downloadAsset_stdout:
  "downloadAsset E d a v f w = (res, w') \<Longrightarrow>
   length (stdout w') = length (stdout w) + (if res = None then 1 else 0)"
  by (auto simp: downloadAsset_def Let_def put_file_def sent_def recorded_def
      split: option.splits sum.splits if_splits)

lemma assetStep_lines:
  "length (stdout (assetStep E d owner repo v f a w)) = Suc (length (stdout w))"
proof (cases "downloadAsset E d a v f w")
  case (Pair res w')
  from downloadAsset_stdout[OF Pair] Pair show ?thesis
    by (cases res) (simp_all add: assetStep_def)
qed

lemma downloadAssets_lines:
  "length (stdout (downloadAssets E d owner repo v f as w)) = length (stdout w) + length as"
  by (induction as arbitrary: w) (simp_all add: assetStep_lines)

lemma downloadAssets_append:
  "downloadAssets E d owner repo v f (pre @ post) w =
   downloadAssets E d owner repo v f post (downloadAssets E d owner repo v f pre w)"
  by (induction pre arbitrary: w) simp_all

text \<open>C1 at three repositories of which the second has a draft as its latest release.\<close>

theorem C1_errors_aggregated_witness:
  "MkdirAll ex_env (destDir ex_downloader) = None \<and>
   map parseUserRepo [''octo/tool'', ''octo/draft'', ''octo/next'']
     = map Inr [(''octo'', ''tool''), (''octo'', ''draft''), (''octo'', ''next'')] \<and>
   fst (downloadLatestRelease ex_env ex_downloader ''octo'' ''tool'' ex_world) = None \<and>
   fst (downloadLatestRelease ex_env ex_downloader ''octo'' ''draft'' ex_world)
     = Some DraftOrPrerelease \<and>
   fst (downloadLatestRelease ex_env ex_downloader ''octo'' ''next'' ex_world) = None \<and>
   snd (fst (DownloadLatestReleases ex_env ex_downloader ex_sched
      [''octo/tool'', ''octo/draft'', ''octo/next''] ex_world))
     = Some (ErrorsOccurred
         [''failed to download octo/draft: latest release is draft or pre-release'']) \<and>
   map_option Error (snd (fst (DownloadLatestReleases ex_env ex_downloader ex_sched
      [''octo/tool'', ''octo/draft'', ''octo/next''] ex_world)))
     = Some (''errors occurred:'' @ [CHR 0x0A] @
         ''failed to download octo/draft: latest release is draft or pre-release'') \<and>
   ''out/tool-v1/tool.tar.gz'' \<in> set (fst (fst (DownloadLatestReleases ex_env ex_downloader
      ex_sched [''octo/tool'', ''octo/draft'', ''octo/next''] ex_world))) \<and>
   ''out/next-latest/tool.tar.gz'' \<in> set (fst (fst (DownloadLatestReleases ex_env ex_downloader
      ex_sched [''octo/tool'', ''octo/draft'', ''octo/next''] ex_world)))"
proof -
  define R where "R = DownloadLatestReleases ex_env ex_downloader ex_sched
      [''octo/tool'', ''octo/draft'', ''octo/next''] ex_world"
  have m: "MkdirAll ex_env (destDir ex_downloader) = None"
    by (simp add: ex_env_def)
  have r: "DownloadLatestReleases ex_env ex_downloader ex_sched
      [''octo/tool'', ''octo/draft'', ''octo/next''] ex_world = ((fst (fst R), snd (fst R)), snd R)"
    by (simp add: R_def)
  note T = C1_errors_aggregated[OF m ex_parse3 ex_failures3 r]
  have e: "snd (fst R) = Some (ErrorsOccurred
      [''failed to download '' @ ''octo'' @ ''/'' @ ''draft'' @ '': '' @ Error DraftOrPrerelease])"
    using T by blast
  have t: "map_option Error (snd (fst R))
      = Some (''errors occurred:'' @ [CHR 0x0A] @
         ''failed to download '' @ ''octo'' @ ''/'' @ ''draft'' @ '': '' @ Error DraftOrPrerelease)"
    using T e by auto
  have j: "Join ex_env ''out/tool-v1'' (GetName ex_asset) = ''out/tool-v1/tool.tar.gz''"
    "Join ex_env ''out/next-latest'' (GetName ex_asset) = ''out/next-latest/tool.tar.gz''"
    by (simp_all add: ex_env_def ex_asset_def GetName_def)
  have "Join ex_env ''out/tool-v1'' (GetName ex_asset) \<in> set (fst (fst R))"
    using T ex_resolve(1) ex_fetchable(1)[of "''out/tool-v1''"] ex_fetchable(2) by fastforce
  moreover have "Join ex_env ''out/next-latest'' (GetName ex_asset) \<in> set (fst (fst R))"
    using T ex_resolve(2) ex_fetchable(1)[of "''out/next-latest''"] ex_fetchable(2) by fastforce
  moreover have "fst (downloadLatestRelease ex_env ex_downloader ''octo'' ''tool'' ex_world) = None"
    "fst (downloadLatestRelease ex_env ex_downloader ''octo'' ''draft'' ex_world)
       = Some DraftOrPrerelease"
    "fst (downloadLatestRelease ex_env ex_downloader ''octo'' ''next'' ex_world) = None"
    by (simp_all add: downloadLatestRelease_def ex_resolve)
  ultimately show ?thesis
    using m ex_parse3 e t j unfolding R_def by simp
qed

text \<open>
  C7 (as amended). When the destination directory is made and the loop of
  \<open>DownloadLatestReleases\<close> reaches an identifier that \<open>parseUserRepo\<close> rejects
  (one that has not exactly one \<open>/\<close>; the identifiers before it parse), the call
  returns at once, under every schedule: no paths, and the error "invalid user/repo
  format '...': expected format 'owner/repo'" that names the identifier, not the
  combined error of the per-repository failures. Only the goroutines of the identifiers
  before it were spawned; they are not waited for.
\<close>

theorem C7_malformed_identifier_fails_fast:
  assumes "MkdirAll E (destDir d) = None"
    and "map parseUserRepo pre = map Inr repos"
    and "parseUserRepo bad = Inl e"
  shows "count_list bad (CHR ''/'') \<noteq> 1 \<and>
         fst (DownloadLatestReleases E d sched (pre @ bad # post) w)
           = ([], Some (InvalidFormat bad ExpectedOwnerRepo)) \<and>
         Error (InvalidFormat bad ExpectedOwnerRepo)
           = ''invalid user/repo format '' @ quoted bad @ '': expected format '' @ quoted ''owner/repo'' \<and>
         snd (DownloadLatestReleases E d sched (pre @ bad # post) w)
           = fst (fst (run_sched E d sched ((made_dir w (destDir d), []), spawned repos)))"
proof -
  from assms(3) have e: "e = ExpectedOwnerRepo" and n: "count_list bad (CHR ''/'') \<noteq> 1"
    by (simp_all add: parseUserRepo_Inl)
  from spawn_loop_bad[OF assms(2,3), of post "[]"] e
  have "spawn_loop (pre @ bad # post) [] = (spawned repos, Some (InvalidFormat bad ExpectedOwnerRepo))"
    by simp
  with assms(1) n show ?thesis
    by (simp add: DownloadLatestReleases_def split: prod.splits)
qed

text \<open>C7 (as amended) at the list \<open>octo/tool\<close>, \<open>octo-tool\<close>, \<open>octo/next\<close>.\<close>

theorem C7_malformed_identifier_fails_fast_witness:
  "MkdirAll ex_env (destDir ex_downloader) = None \<and>
   map parseUserRepo [''octo/tool''] = map Inr [(''octo'', ''tool'')] \<and>
   parseUserRepo ''octo-tool'' = Inl ExpectedOwnerRepo \<and>
   count_list ''octo-tool'' (CHR ''/'') \<noteq> 1 \<and>
   fst (DownloadLatestReleases ex_env ex_downloader ex_sched
          [''octo/tool'', ''octo-tool'', ''octo/next''] ex_world)
     = ([], Some (InvalidFormat ''octo-tool'' ExpectedOwnerRepo))"
proof -
  have m: "MkdirAll ex_env (destDir ex_downloader) = None"
    by (simp add: ex_env_def)
  have p: "map parseUserRepo [''octo/tool''] = map Inr [(''octo'', ''tool'')]"
    and b: "parseUserRepo ''octo-tool'' = Inl ExpectedOwnerRepo"
    by (simp_all add: parseUserRepo_def)
  from C7_malformed_identifier_fails_fast[OF m p b, of ex_sched "[''octo/next'']" ex_world] m p b
  show ?thesis by simp
qed

text \<open>
  C7 as the specification states it fails: \<open>/repo\<close> is malformed for the
  specification (its owner is empty), yet \<open>parseUserRepo\<close> accepts it, its goroutine
  is spawned with the others, and its failure comes back as a per-repository failure in
  the combined error, next to the paths of the other repositories.
\<close>

theorem C7_empty_owner_collected:
  "parseUserRepo ''/repo'' = Inr ([], ''repo'') \<and>
   snd (fst (DownloadLatestReleases ex_env ex_downloader ex_sched
      [''octo/tool'', ''/repo'', ''octo/next''] ex_world))
     = Some (ErrorsOccurred
         [''failed to download /repo: error fetching latest release: 404 Not Found'']) \<and>
   ''out/tool-v1/tool.tar.gz'' \<in> set (fst (fst (DownloadLatestReleases ex_env ex_downloader
      ex_sched [''octo/tool'', ''/repo'', ''octo/next''] ex_world)))"
proof -
  define R where "R = DownloadLatestReleases ex_env ex_downloader ex_sched
      [''octo/tool'', ''/repo'', ''octo/next''] ex_world"
  let ?repos = "[(''octo'', ''tool''), ([], ''repo''), (''octo'', ''next'')]"
  have m: "MkdirAll ex_env (destDir ex_downloader) = None"
    by (simp add: ex_env_def)
  have p: "map parseUserRepo [''octo/tool'', ''/repo'', ''octo/next''] = map Inr ?repos"
    and q: "parseUserRepo ''/repo'' = Inr ([], ''repo'')"
    by (simp_all add: parseUserRepo_def)
  have f: "concat (map (\<lambda>(owner, repo).
      case fst (downloadLatestRelease ex_env ex_downloader owner repo ex_world) of
        Some e \<Rightarrow> [FailedDownload owner repo e]
      | None \<Rightarrow> []) ?repos) = [FailedDownload [] ''repo'' (FetchFailed ''404 Not Found'')]"
    by (simp add: downloadLatestRelease_def ex_resolve)
  from DownloadLatestReleases_aggregate[OF m p, of ex_world ex_sched]
  obtain ch where ch: "mset ch = {#FailedDownload [] ''repo'' (FetchFailed ''404 Not Found'')#}"
    and res: "fst R = (binPaths (snd R), if ch = [] then None else Some (ErrorsOccurred (map Error ch)))"
    and sub: "mset (binPaths ex_world) + mset (concat (map (task_paths ex_env ex_downloader)
        (spawned ?repos))) \<subseteq># mset (binPaths (snd R))"
    unfolding R_def f by auto
  from ch have "ch = [FailedDownload [] ''repo'' (FetchFailed ''404 Not Found'')]"
    by (rule mset_single_list)
  with res have e: "snd (fst R) = Some (ErrorsOccurred
      [''failed to download /repo: error fetching latest release: 404 Not Found''])"
    by simp
  have "Join ex_env ''out/tool-v1'' (GetName ex_asset)
      \<in> set (concat (map (task_paths ex_env ex_downloader) (spawned ?repos)))"
    by (rule task_paths_spawned[where owner = "''octo''" and repo = "''tool''" and w = ex_world,
          OF _ ex_resolve(1) _ ex_fetchable(2) ex_fetchable(1)]) simp_all
  then have "''out/tool-v1/tool.tar.gz''
      \<in># mset (binPaths ex_world) + mset (concat (map (task_paths ex_env ex_downloader)
        (spawned ?repos)))"
    by (simp add: ex_env_def ex_asset_def GetName_def)
  with sub have "''out/tool-v1/tool.tar.gz'' \<in># mset (binPaths (snd R))"
    by (rule mset_subset_eqD)
  with res have "''out/tool-v1/tool.tar.gz'' \<in> set (fst (fst R))"
    by simp
  with q e show ?thesis unfolding R_def by simp
qed

text \<open>
  C6 (as amended). An asset whose download fails is reported by a warning and the loop
  goes on: the assets after it are worked on from the state the warning leaves, and
  every asset of the release gets its one printed line. \<open>downloadLatestRelease\<close>
  returns an error exactly when the release cannot be fetched, is a draft or a
  prerelease, has no assets, or its version directory cannot be created; it then
  leaves the state as it was. In a run of \<open>DownloadLatestReleases\<close>, under every
  schedule of the steps of the goroutines, the lines printed are one for each asset of
  each repository that resolves, whichever other repositories fail.
\<close>

theorem C6_failure_isolation:
  "(\<forall>err w1. selected d a \<and> downloadAsset E d a versionDir forceDownload w = (Some err, w1) \<longrightarrow>
       assetStep E d owner repo versionDir forceDownload a w
         = w1\<lparr>stdout := stdout w1 @ [Warning (GetName a) owner repo err]\<rparr>) \<and>
   downloadAssets E d owner repo versionDir forceDownload (pre @ a # post) w =
     downloadAssets E d owner repo versionDir forceDownload post
       (assetStep E d owner repo versionDir forceDownload a
          (downloadAssets E d owner repo versionDir forceDownload pre w)) \<and>
   length (stdout (downloadAssets E d owner repo versionDir forceDownload as w))
     = length (stdout w) + length as \<and>
   (fst (downloadLatestRelease E d owner repo w) \<noteq> None \<longleftrightarrow>
      (\<exists>e. GetLatestRelease E owner repo = Inl e) \<or>
      (\<exists>rel. GetLatestRelease E owner repo = Inr rel \<and>
         (GetDraft rel \<or> GetPrerelease rel \<or> r_Assets rel = [] \<or>
          MkdirAll E (Join E (destDir d)
             (repo @ ''-'' @ (if GetTagName rel = [] then ''latest'' else GetTagName rel)))
            \<noteq> None))) \<and>
   (fst (downloadLatestRelease E d owner repo w) \<noteq> None \<longrightarrow>
      snd (downloadLatestRelease E d owner repo w) = w) \<and>
   (MkdirAll E (destDir d) = None \<and> map parseUserRepo userRepos = map Inr repos \<longrightarrow>
      length (stdout (snd (DownloadLatestReleases E d sched userRepos w))) =
        length (stdout w) +
        sum_list (map (\<lambda>(owner, repo).
            case resolveRelease E d owner repo w of
              Inl e \<Rightarrow> 0
            | Inr (v, f, as, w1) \<Rightarrow> length as) repos))"
proof -
  have warn: "assetStep E d owner repo versionDir forceDownload a w
         = w1\<lparr>stdout := stdout w1 @ [Warning (GetName a) owner repo err]\<rparr>"
    if "selected d a \<and> downloadAsset E d a versionDir forceDownload w = (Some err, w1)"
    for err w1
    using that by (auto simp: assetStep_def selected_def)
  have cont: "downloadAssets E d owner repo versionDir forceDownload (pre @ a # post) w =
     downloadAssets E d owner repo versionDir forceDownload post
       (assetStep E d owner repo versionDir forceDownload a
          (downloadAssets E d owner repo versionDir forceDownload pre w))"
    by (simp add: downloadAssets_append)
  have fails: "fst (downloadLatestRelease E d owner repo w) \<noteq> None \<longleftrightarrow>
      (\<exists>e. GetLatestRelease E owner repo = Inl e) \<or>
      (\<exists>rel. GetLatestRelease E owner repo = Inr rel \<and>
         (GetDraft rel \<or> GetPrerelease rel \<or> r_Assets rel = [] \<or>
          MkdirAll E (Join E (destDir d)
             (repo @ ''-'' @ (if GetTagName rel = [] then ''latest'' else GetTagName rel)))
            \<noteq> None))"
  proof -
    have "fst (downloadLatestRelease E d owner repo w) \<noteq> None
        \<longleftrightarrow> (\<exists>e. plan_of E d owner repo = Inl e)"
      by (auto simp: downloadLatestRelease_plan split: sum.splits)
    then show ?thesis by (simp only: plan_of_Inl)
  qed
  have abort: "snd (downloadLatestRelease E d owner repo w) = w"
    if "fst (downloadLatestRelease E d owner repo w) \<noteq> None"
    using that by (auto simp: downloadLatestRelease_plan split: sum.splits)
  have all: "length (stdout (snd (DownloadLatestReleases E d sched userRepos w))) =
        length (stdout w) +
        sum_list (map (\<lambda>(owner, repo).
            case resolveRelease E d owner repo w of
              Inl e \<Rightarrow> 0
            | Inr (v, f, as, w1) \<Rightarrow> length as) repos)"
    if h: "MkdirAll E (destDir d) = None \<and> map parseUserRepo userRepos = map Inr repos"
    using DownloadLatestReleases_aggregate[of E d userRepos repos w sched] h
      task_lines_spawned[of E d repos w]
    by auto
  from warn cont downloadAssets_lines[of E d owner repo versionDir forceDownload as w]
    fails abort all
  show ?thesis by blast
qed

text \<open>
  C6 as the specification states it fails: a release that is fetched, is neither draft
  nor prerelease and has an asset still makes \<open>downloadLatestRelease\<close> return an
  error, when the version directory cannot be created.
\<close>

theorem C6_version_directory_failure:
  "GetLatestRelease ex_env_no_dir ''octo'' ''tool'' = Inr ex_release \<and>
   \<not> GetDraft ex_release \<and> \<not> GetPrerelease ex_release \<and> r_Assets ex_release \<noteq> [] \<and>
   downloadLatestRelease ex_env_no_dir ex_downloader ''octo'' ''tool'' ex_world
     = (Some (VersionDirFailed ''out/tool-v1'' ''not a directory''), ex_world)"
  by (simp add: downloadLatestRelease_def resolveRelease_def Let_def ex_env_no_dir_def
      ex_defs acc_defs)

lemma ex_resolve_down:
  "resolveRelease ex_env_down ex_downloader ''octo'' ''tool'' ex_world
     = Inr (''out/tool-v1'', False, [ex_asset], made_dir ex_world ''out/tool-v1'')"
  "resolveRelease ex_env_down ex_downloader ''octo'' ''next'' ex_world
     = Inr (''out/next-latest'', True, [ex_asset], made_dir ex_world ''out/next-latest'')"
  "resolveRelease ex_env_down ex_downloader ''octo'' ''draft'' ex_world = Inl DraftOrPrerelease"
  by (simp_all add: resolveRelease_def Let_def ex_release_def ex_env_def ex_env_down_def
      ex_downloader_def GetDraft_def GetPrerelease_def GetTagName_def)

text \<open>C6 (as amended) in the small world with the API answering 503 to every request.\<close>

theorem C6_failure_isolation_witness:
  "selected ex_downloader ex_asset \<and>
   fst (downloadAsset ex_env_down ex_downloader ex_asset ''out/tool-v1'' False ex_world)
     = Some (UnexpectedStatus ''503 Service Unavailable'') \<and>
   stdout (assetStep ex_env_down ex_downloader ''octo'' ''tool'' ''out/tool-v1'' False ex_asset
      ex_world)
     = [Warning ''tool.tar.gz'' ''octo'' ''tool'' (UnexpectedStatus ''503 Service Unavailable'')] \<and>
   fst (downloadLatestRelease ex_env_down ex_downloader ''octo'' ''tool'' ex_world) = None \<and>
   fst (downloadLatestRelease ex_env_down ex_downloader ''octo'' ''draft'' ex_world) \<noteq> None \<and>
   snd (downloadLatestRelease ex_env_down ex_downloader ''octo'' ''draft'' ex_world) = ex_world \<and>
   MkdirAll ex_env_down (destDir ex_downloader) = None \<and>
   map parseUserRepo [''octo/tool'', ''octo/draft'', ''octo/next'']
     = map Inr [(''octo'', ''tool''), (''octo'', ''draft''), (''octo'', ''next'')] \<and>
   length (stdout (snd (DownloadLatestReleases ex_env_down ex_downloader ex_sched
      [''octo/tool'', ''octo/draft'', ''octo/next''] ex_world))) = 2"
proof -
  note T = C6_failure_isolation[where E = ex_env_down and d = ex_downloader and a = ex_asset
      and versionDir = "''out/tool-v1''" and forceDownload = False and w = ex_world
      and owner = "''octo''" and sched = ex_sched
      and userRepos = "[''octo/tool'', ''octo/draft'', ''octo/next'']"
      and repos = "[(''octo'', ''tool''), (''octo'', ''draft''), (''octo'', ''next'')]"]
  have sel: "selected ex_downloader ex_asset"
    by (rule ex_fetchable(2))
  have n: "GetName ex_asset = ''tool.tar.gz''"
    by (simp add: GetName_def ex_asset_def)
  have w0: "stdout ex_world = []"
    by (simp add: ex_world_def)
  have m: "MkdirAll ex_env_down (destDir ex_downloader) = None"
    by (simp add: ex_env_down_def ex_env_def)
  have g: "GetLatestRelease ex_env_down ''octo'' ''tool'' = Inr ex_release"
    "GetLatestRelease ex_env_down ''octo'' ''draft'' = Inr (ex_release\<lparr>r_Draft := Some True\<rparr>)"
    by (simp_all add: ex_env_down_def ex_env_def)
  have rel: "\<not> GetDraft ex_release" "\<not> GetPrerelease ex_release" "r_Assets ex_release \<noteq> []"
    "GetTagName ex_release = ''v1''" "GetDraft (ex_release\<lparr>r_Draft := Some True\<rparr>)"
    by (simp_all add: ex_release_def acc_defs)
  have dir: "MkdirAll ex_env_down (Join ex_env_down (destDir ex_downloader) (''tool'' @ ''-'' @ ''v1''))
      = None"
    by (simp add: ex_env_down_def ex_env_def)
  have warned: "stdout (assetStep ex_env_down ex_downloader ''octo'' ''tool'' ''out/tool-v1'' False
      ex_asset ex_world)
     = [Warning ''tool.tar.gz'' ''octo'' ''tool'' (UnexpectedStatus ''503 Service Unavailable'')]"
    using T[where repo = "''tool''"] sel ex_failed_run n by simp
  have tool: "fst (downloadLatestRelease ex_env_down ex_downloader ''octo'' ''tool'' ex_world) = None"
    using T[where repo = "''tool''"] g(1) rel(1-4) dir by simp
  have draft: "fst (downloadLatestRelease ex_env_down ex_downloader ''octo'' ''draft'' ex_world)
      \<noteq> None"
    using T[where repo = "''draft''"] g(2) rel(5) by simp
  have same: "snd (downloadLatestRelease ex_env_down ex_downloader ''octo'' ''draft'' ex_world)
      = ex_world"
    using T[where repo = "''draft''"] draft by blast
  have lines: "length (stdout (snd (DownloadLatestReleases ex_env_down ex_downloader ex_sched
      [''octo/tool'', ''octo/draft'', ''octo/next''] ex_world))) = 2"
    using T[where repo = "''tool''"] m ex_parse3 w0 ex_resolve_down by simp
  from sel warned tool draft same m ex_parse3 lines show ?thesis
    by (simp add: ex_failed_run)
qed

end
